theory Spec2Isabelle
  imports Complex_Main
begin

section \<open>The update graphs built by \<open>learning_method.py\<close>\<close>

text \<open>
  Each function of \<open>learning_method.py\<close> (\<open>sgd\<close>, \<open>sgdmomentum\<close>, \<open>adagrad\<close>,
  \<open>adadelta\<close>, \<open>adam\<close>) allocates Theano shared variables and returns a list of
  updates, pairs of a shared variable and the symbolic expression of its next value.
  The embedding keeps that shape: a shared variable is a \<open>var\<close>, a symbolic expression
  an \<open>expr\<close>, and a function returns the update list together with the shared
  variables it allocated and their initial values.

  Numbers are real numbers: the five functions and \<open>eval\<close> work in exact arithmetic,
  and the rounding of \<open>np.float32\<close> is not part of them. Where a claim depends on the
  rounding, \<open>float32\<close> below gives it. All tensor operations of the source are
  elementwise (a scalar is broadcast), so a store gives the value of each shared
  variable at one coordinate.
\<close>

subsection \<open>Shared variables and expressions\<close>

text \<open>
  \<open>Param p\<close> is a shared variable of the caller (an entry of \<open>params\<close>). The other
  constructors are the shared variables the functions allocate themselves, named after
  the Python variable that holds them; the ones allocated once for each parameter carry
  the position in the list they belong to.
\<close>

datatype var =
    Param nat
  | V_lr
  | V_momentum
  | V_epsilon
  | V_rho
  | V_velocity nat
  | V_gsum nat
  | V_accu_gradient nat
  | V_accu_delta nat
  | V_m_prev nat
  | V_v_prev nat
  | V_t

text \<open>
  The nodes of a symbolic expression: a shared variable, an input of the graph that is
  not shared (the data a gradient depends on), a Python float, and the operators the
  source applies (\<open>+\<close>, \<open>-\<close>, \<open>*\<close>, \<open>/\<close>, \<open>**\<close>, unary minus, \<open>T.sqrt\<close>).
\<close>

datatype expr =
    EVar var
  | EInput nat
  | EConst real
  | EAdd expr expr
  | ESub expr expr
  | EMul expr expr
  | EDiv expr expr
  | EPow expr expr
  | ENeg expr
  | ESqrt expr

text \<open>
  What a call leaves behind: \<open>shared\<close>, the shared variables it allocated with
  \<open>theano.shared\<close> and their initial values, in allocation order, and \<open>updates\<close>, the
  list it returns.
\<close>

record graph =
  shared :: "(var \<times> real) list"
  updates :: "(var \<times> expr) list"

datatype error = AssertionError

subsection \<open>The five functions\<close>

text \<open>
  \<open>gradients\<close> stands for the list \<open>T.grad(cost, params)\<close>; Theano's differentiation
  is outside the repository, so the list is a parameter. \<open>zip\<close> stops at the shorter
  list, in Python as in HOL.
\<close>

definition sgd :: "expr list \<Rightarrow> nat list \<Rightarrow> real \<Rightarrow> graph" where
  "sgd gradients params lr =
     \<lparr>shared = [(V_lr, lr)],
      updates = concat (map (\<lambda>(p, g).
          [(Param p, ESub (EVar (Param p)) (EMul (EVar V_lr) g))])
        (zip params gradients))\<rparr>"

definition sgdmomentum :: "expr list \<Rightarrow> nat list \<Rightarrow> real \<Rightarrow> real \<Rightarrow> error + graph" where
  "sgdmomentum gradients params lr momentum =
     (if \<not> (0 \<le> momentum \<and> momentum < 1) then Inl AssertionError
      else
        let velocities = map V_velocity [0..<length params] in
        Inr \<lparr>shared = [(V_lr, lr), (V_momentum, momentum)] @ map (\<lambda>v. (v, 0)) velocities,
             updates = concat (map (\<lambda>(param, gradient, velocity).
                 let new_velocity =
                   ESub (EMul (EVar V_momentum) (EVar velocity)) (EMul (EVar V_lr) gradient)
                 in [(velocity, new_velocity),
                     (Param param, EAdd (EVar (Param param)) new_velocity)])
               (zip params (zip gradients velocities)))\<rparr>)"

definition adagrad :: "expr list \<Rightarrow> nat list \<Rightarrow> real \<Rightarrow> real \<Rightarrow> graph" where
  "adagrad gradients params lr epsilon =
     (let gsums = map V_gsum [0..<length params] in
      \<lparr>shared = [(V_lr, lr), (V_epsilon, epsilon)] @ map (\<lambda>v. (v, 0)) gsums,
       updates = concat (map (\<lambda>(param, gradient, gsum).
           let new_gsum = EAdd (EVar gsum) (EPow gradient (EConst 2))
           in [(gsum, new_gsum),
               (Param param,
                ESub (EVar (Param param))
                  (EDiv (EMul (EVar V_lr) gradient)
                     (ESqrt (EAdd new_gsum (EVar V_epsilon)))))])
         (zip params (zip gradients gsums)))\<rparr>)"

definition adadelta :: "expr list \<Rightarrow> nat list \<Rightarrow> real \<Rightarrow> real \<Rightarrow> graph" where
  "adadelta gradients params rho epsilon =
     (let accu_gradients = map V_accu_gradient [0..<length params];
          accu_deltas = map V_accu_delta [0..<length params] in
      \<lparr>shared = [(V_rho, rho), (V_epsilon, epsilon)]
         @ map (\<lambda>v. (v, 0)) accu_gradients @ map (\<lambda>v. (v, 0)) accu_deltas,
       updates = concat (map (\<lambda>(param, gradient, accu_gradient, accu_delta).
           let new_accu_gradient =
                 EAdd (EMul (EVar V_rho) (EVar accu_gradient))
                   (EMul (ESub (EConst 1) (EVar V_rho)) (EPow gradient (EConst 2)));
               delta_x =
                 EMul (ENeg (ESqrt (EDiv (EAdd (EVar accu_delta) (EVar V_epsilon))
                                      (EAdd new_accu_gradient (EVar V_epsilon)))))
                   gradient;
               new_accu_delta =
                 EAdd (EMul (EVar V_rho) (EVar accu_delta))
                   (EMul (ESub (EConst 1) (EVar V_rho)) (EPow delta_x (EConst 2)))
           in [(accu_gradient, new_accu_gradient),
               (accu_delta, new_accu_delta),
               (Param param, EAdd (EVar (Param param)) delta_x)])
         (zip params (zip gradients (zip accu_gradients accu_deltas))))\<rparr>)"

text \<open>
  In \<open>adam\<close> the hyperparameters stay Python floats, so \<open>1. - beta1\<close> is computed by
  Python and enters the graph as one constant; \<open>m_prev\<close> and \<open>v_prev\<close> are allocated
  inside the loop, once for each pair the \<open>zip\<close> yields.
\<close>

definition adam :: "expr list \<Rightarrow> nat list \<Rightarrow> real \<Rightarrow> real \<Rightarrow> real \<Rightarrow> real \<Rightarrow> graph" where
  "adam gradients params lr beta1 beta2 epsilon =
     (let t = V_t;
          pairs = enumerate 0 (zip params gradients) in
      \<lparr>shared = [(t, 1)]
         @ concat (map (\<lambda>(i, param, gradient). [(V_m_prev i, 0), (V_v_prev i, 0)]) pairs),
       updates = concat (map (\<lambda>(i, param, gradient).
           let m_prev = V_m_prev i;
               v_prev = V_v_prev i;
               m = EAdd (EMul (EConst beta1) (EVar m_prev))
                     (EMul (EConst (1 - beta1)) gradient);
               v = EAdd (EMul (EConst beta2) (EVar v_prev))
                     (EMul (EConst (1 - beta2)) (EPow gradient (EConst 2)));
               m_hat = EDiv m (ESub (EConst 1) (EPow (EConst beta1) (EVar t)));
               v_hat = EDiv v (ESub (EConst 1) (EPow (EConst beta2) (EVar t)));
               theta = ESub (EVar (Param param))
                         (EDiv (EMul (EConst lr) m_hat) (EAdd (ESqrt v_hat) (EConst epsilon)))
           in [(m_prev, m), (v_prev, v), (Param param, theta)])
         pairs)
         @ [(t, EAdd (EVar t) (EConst 1))]\<rparr>)"

subsection \<open>The value of an expression\<close>

text \<open>
  A value is a real number, or \<open>None\<close> where floating point leaves the finite numbers
  (a division by zero, the square root of a negative number); \<open>None\<close> propagates
  through every operator, as NaN does.
\<close>

type_synonym store = "var \<Rightarrow> real option"

text \<open>
  \<open>x ** y\<close>: defined for every base when the exponent is a whole number, for a
  positive base otherwise.
\<close>

definition float_pow :: "real \<Rightarrow> real \<Rightarrow> real option" where
  "float_pow x y =
     (if y = of_int \<lfloor>y\<rfloor> then
        (if 0 \<le> y then Some (x ^ nat \<lfloor>y\<rfloor>)
         else if x = 0 then None
         else Some (inverse (x ^ nat \<lfloor>- y\<rfloor>)))
      else if 0 < x then Some (x powr y)
      else if x = 0 \<and> 0 < y then Some 0
      else None)"

definition float_div :: "real \<Rightarrow> real \<Rightarrow> real option" where
  "float_div x y = (if y = 0 then None else Some (x / y))"

definition float_sqrt :: "real \<Rightarrow> real option" where
  "float_sqrt x = (if x < 0 then None else Some (sqrt x))"

primrec eval :: "(nat \<Rightarrow> real option) \<Rightarrow> store \<Rightarrow> expr \<Rightarrow> real option" where
  "eval inp s (EVar x) = s x"
| "eval inp s (EInput i) = inp i"
| "eval inp s (EConst c) = Some c"
| "eval inp s (EAdd a b) =
     Option.bind (eval inp s a) (\<lambda>x. Option.bind (eval inp s b) (\<lambda>y. Some (x + y)))"
| "eval inp s (ESub a b) =
     Option.bind (eval inp s a) (\<lambda>x. Option.bind (eval inp s b) (\<lambda>y. Some (x - y)))"
| "eval inp s (EMul a b) =
     Option.bind (eval inp s a) (\<lambda>x. Option.bind (eval inp s b) (\<lambda>y. Some (x * y)))"
| "eval inp s (EDiv a b) =
     Option.bind (eval inp s a) (\<lambda>x. Option.bind (eval inp s b) (\<lambda>y. float_div x y))"
| "eval inp s (EPow a b) =
     Option.bind (eval inp s a) (\<lambda>x. Option.bind (eval inp s b) (\<lambda>y. float_pow x y))"
| "eval inp s (ENeg a) = Option.bind (eval inp s a) (\<lambda>x. Some (- x))"
| "eval inp s (ESqrt a) = Option.bind (eval inp s a) float_sqrt"

subsection \<open>One step\<close>

text \<open>
  The repository only builds the update lists; applying one is the work of Theano
  (\<open>theano.function\<close> with \<open>updates\<close>), which evaluates every right-hand side in the
  store before the step and then writes all of them at once. The spec describes its
  \<open>step\<close> the same way: the next state is computed from the current state and the
  gradient, in one batch. A variable with no update keeps its value; of several updates
  of one variable the first is taken (the theorems that depend on the choice assume
  distinct parameters).
\<close>

definition step :: "(var \<times> expr) list \<Rightarrow> (nat \<Rightarrow> real option) \<Rightarrow> store \<Rightarrow> store" where
  "step ups inp s = (\<lambda>x. case map_of ups x of None \<Rightarrow> s x | Some e \<Rightarrow> eval inp s e)"

text \<open>Successive steps, one for each valuation of the inputs.\<close>

definition steps :: "(var \<times> expr) list \<Rightarrow> (nat \<Rightarrow> real option) list \<Rightarrow> store \<Rightarrow> store" where
  "steps ups inps s = fold (step ups) inps s"

text \<open>
  The store when training starts: the allocated shared variables hold their initial
  values, the parameters the values of the caller.
\<close>

definition init_store :: "(var \<times> real) list \<Rightarrow> (nat \<Rightarrow> real option) \<Rightarrow> store" where
  "init_store sh pvals =
     (\<lambda>x. case map_of sh x of
            Some v \<Rightarrow> Some v
          | None \<Rightarrow> (case x of Param p \<Rightarrow> pvals p | _ \<Rightarrow> None))"

subsection \<open>Single precision\<close>

text \<open>
  \<open>np.float32(x)\<close>: the rounding of a real number to single precision, to the nearest
  number with a significand of 24 bits, a tie going to the even significand. The
  exponent range is not modelled (no overflow, no subnormal numbers); the theorems use
  \<open>float32\<close> on whole numbers up to \<open>2 ^ 24 + 1\<close> only.
\<close>

definition round_half_even :: "real \<Rightarrow> int" where
  "round_half_even x =
     (let f = \<lfloor>x\<rfloor>; r = x - of_int f in
      if r < 1/2 then f
      else if 1/2 < r then f + 1
      else if even f then f else f + 1)"

definition float32 :: "real \<Rightarrow> real" where
  "float32 x =
     (if x = 0 then 0
      else let e = \<lfloor>log 2 \<bar>x\<bar>\<rfloor>; ulp = 2 powi (e - 23)
           in of_int (round_half_even (x / ulp)) * ulp)"

text \<open>
  A step whose shared variables are single-precision numbers, with \<open>floatX\<close> set to
  \<open>float32\<close>: what is written is the rounding of the exact value of the right-hand side.
  That is the result of IEEE arithmetic when the right-hand side is one operation on
  numbers held exactly, or several whose intermediate results are exact; the theorems
  use \<open>step_f32\<close> on such right-hand sides only (\<open>t + 1.\<close>, and \<open>gsum + gradient ** 2.\<close>
  with \<open>gradient = 1\<close>).
\<close>

definition step_f32 :: "(var \<times> expr) list \<Rightarrow> (nat \<Rightarrow> real option) \<Rightarrow> store \<Rightarrow> store" where
  "step_f32 ups inp s = (\<lambda>x. map_option float32 (step ups inp s x))"

definition steps_f32 :: "(var \<times> expr) list \<Rightarrow> (nat \<Rightarrow> real option) list \<Rightarrow> store \<Rightarrow> store" where
  "steps_f32 ups inps s = fold (step_f32 ups) inps s"

subsection \<open>The variables an expression reads\<close>

primrec reads :: "expr \<Rightarrow> var set" where
  "reads (EVar x) = {x}"
| "reads (EInput i) = {}"
| "reads (EConst c) = {}"
| "reads (EAdd a b) = reads a \<union> reads b"
| "reads (ESub a b) = reads a \<union> reads b"
| "reads (EMul a b) = reads a \<union> reads b"
| "reads (EDiv a b) = reads a \<union> reads b"
| "reads (EPow a b) = reads a \<union> reads b"
| "reads (ENeg a) = reads a"
| "reads (ESqrt a) = reads a"

section \<open>Properties of the update graphs\<close>

subsection \<open>Powers with a whole exponent\<close>

lemma float_pow_two: "float_pow x 2 = Some (x ^ 2)"
  by (simp add: float_pow_def)

lemma float_pow_nat: "float_pow x (real n) = Some (x ^ n)"
  by (simp add: float_pow_def)

subsection \<open>Looking a variable up in an update list\<close>

lemma map_of_concat_map_nth:
  assumes "i < length zs"
    and "\<forall>j<i. k \<notin> fst ` set (f (zs ! j))"
  shows "map_of (concat (map f zs)) k =
    (case map_of (f (zs ! i)) k of Some e \<Rightarrow> Some e | None \<Rightarrow> map_of (concat (map f (drop (Suc i) zs))) k)"
  using assms
proof (induction zs arbitrary: i)
  case Nil
  then show ?case by simp
next
  case (Cons z zs)
  show ?case
  proof (cases i)
    case 0
    then show ?thesis by (simp add: map_add_def split: option.splits)
  next
    case (Suc j)
    from Cons.prems(2) Suc have "k \<notin> fst ` set (f ((z # zs) ! 0))" by blast
    then have none: "map_of (f z) k = None"
      by (simp add: map_of_eq_None_iff)
    have "\<forall>l<j. k \<notin> fst ` set (f (zs ! l))"
    proof (intro allI impI)
      fix l assume "l < j"
      with Cons.prems(2) Suc have "k \<notin> fst ` set (f ((z # zs) ! Suc l))" by blast
      then show "k \<notin> fst ` set (f (zs ! l))" by simp
    qed
    with Suc Cons.prems have "map_of (concat (map f zs)) k =
      (case map_of (f (zs ! j)) k of Some e \<Rightarrow> Some e | None \<Rightarrow> map_of (concat (map f (drop (Suc j) zs))) k)"
      by (intro Cons.IH) auto
    with none Suc show ?thesis by (simp add: map_add_def split: option.splits)
  qed
qed

lemma step_concat_map_nth:
  assumes "i < length zs"
    and "\<forall>j<i. k \<notin> fst ` set (f (zs ! j))"
    and "k \<in> fst ` set (f (zs ! i))"
  shows "step (concat (map f zs)) inp s k = step (f (zs ! i)) inp s k"
proof -
  from assms(3) obtain e where "map_of (f (zs ! i)) k = Some e"
    by (metis map_of_eq_None_iff not_None_eq)
  with map_of_concat_map_nth[OF assms(1,2)] show ?thesis
    by (simp add: step_def)
qed

lemma step_append_left:
  assumes "k \<in> fst ` set xs"
  shows "step (xs @ ys) inp s k = step xs inp s k"
proof -
  from assms obtain e where "map_of xs k = Some e"
    by (metis map_of_eq_None_iff not_None_eq)
  then show ?thesis by (simp add: step_def map_add_def)
qed

lemma step_append_right:
  assumes "k \<notin> fst ` set xs"
  shows "step (xs @ ys) inp s k = step ys inp s k"
proof -
  from assms have "map_of xs k = None" by (simp add: map_of_eq_None_iff)
  then show ?thesis by (simp add: step_def map_add_def split: option.splits)
qed

lemma step_append_not_right:
  assumes "k \<notin> fst ` set ys"
  shows "step (xs @ ys) inp s k = step xs inp s k"
proof -
  from assms have "map_of ys k = None" by (simp add: map_of_eq_None_iff)
  then show ?thesis by (simp add: step_def map_add_def split: option.splits)
qed

lemma step_untouched:
  assumes "k \<notin> fst ` set ups"
  shows "step ups inp s k = s k"
proof -
  from assms have "map_of ups k = None" by (simp add: map_of_eq_None_iff)
  then show ?thesis by (simp add: step_def)
qed

lemma step_fixed:
  assumes "\<And>x e. (x, e) \<in> set ups \<Longrightarrow> eval inp s e = s x"
  shows "step ups inp s = s"
proof
  fix x
  show "step ups inp s x = s x"
    using assms by (auto simp: step_def split: option.splits dest: map_of_SomeD)
qed

subsection \<open>One step of each algorithm at one parameter\<close>

lemma sgd_step:
  assumes "distinct params" "i < length params" "i < length gradients"
    and "s (Param (params ! i)) = Some p" "s V_lr = Some lr"
    and "eval inp s (gradients ! i) = Some g"
  shows "step (updates (sgd gradients params lr)) inp s (Param (params ! i)) = Some (p - lr * g)"
proof -
  let ?f = "\<lambda>(p, g). [(Param p, ESub (EVar (Param p)) (EMul (EVar V_lr) g))]"
  let ?zs = "zip params gradients"
  have "step (concat (map ?f ?zs)) inp s (Param (params ! i)) = step (?f (?zs ! i)) inp s (Param (params ! i))"
    using assms(1-3) by (intro step_concat_map_nth) (auto simp: nth_eq_iff_index_eq Let_def)
  with assms show ?thesis
    by (simp add: sgd_def step_def)
qed

lemma sgdmomentum_step:
  assumes "sgdmomentum gradients params lr momentum = Inr G"
    and "distinct params" "i < length params" "i < length gradients"
    and "s (Param (params ! i)) = Some p" "s V_lr = Some lr" "s V_momentum = Some momentum"
    and "s (V_velocity i) = Some vel"
    and "eval inp s (gradients ! i) = Some g"
  shows "step (updates G) inp s (V_velocity i) = Some (momentum * vel - lr * g)"
    and "step (updates G) inp s (Param (params ! i)) = Some (p + (momentum * vel - lr * g))"
proof -
  let ?f = "\<lambda>(param, gradient, velocity).
                 let new_velocity =
                   ESub (EMul (EVar V_momentum) (EVar velocity)) (EMul (EVar V_lr) gradient)
                 in [(velocity, new_velocity),
                     (Param param, EAdd (EVar (Param param)) new_velocity)]"
  let ?zs = "zip params (zip gradients (map V_velocity [0..<length params]))"
  from assms(1) have G: "updates G = concat (map ?f ?zs)"
    by (auto simp: sgdmomentum_def Let_def split: if_splits)
  have "step (concat (map ?f ?zs)) inp s (Param (params ! i)) = step (?f (?zs ! i)) inp s (Param (params ! i))"
    using assms(2-4) by (intro step_concat_map_nth) (auto simp: nth_eq_iff_index_eq Let_def)
  with assms(3-) G show "step (updates G) inp s (Param (params ! i)) = Some (p + (momentum * vel - lr * g))"
    by (simp add: step_def Let_def)
  have "step (concat (map ?f ?zs)) inp s (V_velocity i) = step (?f (?zs ! i)) inp s (V_velocity i)"
    using assms(2-4) by (intro step_concat_map_nth) (auto simp: nth_eq_iff_index_eq Let_def)
  with assms(3-) G show "step (updates G) inp s (V_velocity i) = Some (momentum * vel - lr * g)"
    by (simp add: step_def Let_def)
qed

lemma adagrad_step:
  assumes "distinct params" "i < length params" "i < length gradients"
    and "s (Param (params ! i)) = Some p" "s V_lr = Some lr" "s V_epsilon = Some epsilon"
    and "s (V_gsum i) = Some gsum"
    and "eval inp s (gradients ! i) = Some g"
    and "0 < gsum + g\<^sup>2 + epsilon"
  shows "step (updates (adagrad gradients params lr epsilon)) inp s (V_gsum i) = Some (gsum + g\<^sup>2)"
    and "step (updates (adagrad gradients params lr epsilon)) inp s (Param (params ! i))
          = Some (p - lr * g / sqrt (gsum + g\<^sup>2 + epsilon))"
proof -
  let ?f = "\<lambda>(param, gradient, gsum).
           let new_gsum = EAdd (EVar gsum) (EPow gradient (EConst 2))
           in [(gsum, new_gsum),
               (Param param,
                ESub (EVar (Param param))
                  (EDiv (EMul (EVar V_lr) gradient)
                     (ESqrt (EAdd new_gsum (EVar V_epsilon)))))]"
  let ?zs = "zip params (zip gradients (map V_gsum [0..<length params]))"
  have G: "updates (adagrad gradients params lr epsilon) = concat (map ?f ?zs)"
    by (simp add: adagrad_def Let_def)
  have "step (concat (map ?f ?zs)) inp s (Param (params ! i)) = step (?f (?zs ! i)) inp s (Param (params ! i))"
    using assms(1-3) by (intro step_concat_map_nth) (auto simp: nth_eq_iff_index_eq Let_def)
  with assms(2-) G show "step (updates (adagrad gradients params lr epsilon)) inp s (Param (params ! i))
          = Some (p - lr * g / sqrt (gsum + g\<^sup>2 + epsilon))"
    by (simp add: step_def Let_def float_pow_two float_div_def float_sqrt_def)
  have "step (concat (map ?f ?zs)) inp s (V_gsum i) = step (?f (?zs ! i)) inp s (V_gsum i)"
    using assms(1-3) by (intro step_concat_map_nth) (auto simp: nth_eq_iff_index_eq Let_def)
  with assms(2-) G show "step (updates (adagrad gradients params lr epsilon)) inp s (V_gsum i) = Some (gsum + g\<^sup>2)"
    by (simp add: step_def Let_def float_pow_two)
qed

lemma adadelta_step:
  assumes "distinct params" "i < length params" "i < length gradients"
    and "s (Param (params ! i)) = Some p" "s V_rho = Some rho" "s V_epsilon = Some epsilon"
    and "s (V_accu_gradient i) = Some accu_gradient"
    and "s (V_accu_delta i) = Some accu_delta"
    and "eval inp s (gradients ! i) = Some g"
    and "accu_gradient_new = rho * accu_gradient + (1 - rho) * g\<^sup>2"
    and "delta = - sqrt ((accu_delta + epsilon) / (accu_gradient_new + epsilon)) * g"
    and "accu_gradient_new + epsilon \<noteq> 0"
    and "0 \<le> (accu_delta + epsilon) / (accu_gradient_new + epsilon)"
  shows "step (updates (adadelta gradients params rho epsilon)) inp s (V_accu_gradient i) = Some accu_gradient_new"
    and "step (updates (adadelta gradients params rho epsilon)) inp s (V_accu_delta i)
          = Some (rho * accu_delta + (1 - rho) * delta\<^sup>2)"
    and "step (updates (adadelta gradients params rho epsilon)) inp s (Param (params ! i))
          = Some (p + delta)"
proof -
  let ?f = "\<lambda>(param, gradient, accu_gradient, accu_delta).
           let new_accu_gradient =
                 EAdd (EMul (EVar V_rho) (EVar accu_gradient))
                   (EMul (ESub (EConst 1) (EVar V_rho)) (EPow gradient (EConst 2)));
               delta_x =
                 EMul (ENeg (ESqrt (EDiv (EAdd (EVar accu_delta) (EVar V_epsilon))
                                      (EAdd new_accu_gradient (EVar V_epsilon)))))
                   gradient;
               new_accu_delta =
                 EAdd (EMul (EVar V_rho) (EVar accu_delta))
                   (EMul (ESub (EConst 1) (EVar V_rho)) (EPow delta_x (EConst 2)))
           in [(accu_gradient, new_accu_gradient),
               (accu_delta, new_accu_delta),
               (Param param, EAdd (EVar (Param param)) delta_x)]"
  let ?zs = "zip params (zip gradients (zip (map V_accu_gradient [0..<length params]) (map V_accu_delta [0..<length params])))"
  let ?ups = "updates (adadelta gradients params rho epsilon)"
  have G: "?ups = concat (map ?f ?zs)"
    by (simp add: adadelta_def Let_def)
  have "step (concat (map ?f ?zs)) inp s (Param (params ! i)) = step (?f (?zs ! i)) inp s (Param (params ! i))"
    using assms(1-3) by (intro step_concat_map_nth) (auto simp: nth_eq_iff_index_eq Let_def)
  with assms(2-) G show "step ?ups inp s (Param (params ! i)) = Some (p + delta)"
    by (simp add: step_def Let_def float_pow_two float_div_def float_sqrt_def)
  have "step (concat (map ?f ?zs)) inp s (V_accu_gradient i) = step (?f (?zs ! i)) inp s (V_accu_gradient i)"
    using assms(1-3) by (intro step_concat_map_nth) (auto simp: nth_eq_iff_index_eq Let_def)
  with assms(2-) G show "step ?ups inp s (V_accu_gradient i) = Some accu_gradient_new"
    by (simp add: step_def Let_def float_pow_two)
  have "step (concat (map ?f ?zs)) inp s (V_accu_delta i) = step (?f (?zs ! i)) inp s (V_accu_delta i)"
    using assms(1-3) by (intro step_concat_map_nth) (auto simp: nth_eq_iff_index_eq Let_def)
  with assms(2-) G show "step ?ups inp s (V_accu_delta i) = Some (rho * accu_delta + (1 - rho) * delta\<^sup>2)"
    by (simp add: step_def Let_def float_pow_two float_div_def float_sqrt_def)
qed

lemma adam_step:
  assumes "distinct params" "i < length params" "i < length gradients"
    and "s (Param (params ! i)) = Some p"
    and "s (V_m_prev i) = Some m_prev" "s (V_v_prev i) = Some v_prev"
    and "s V_t = Some (real n)"
    and "eval inp s (gradients ! i) = Some g"
    and "m = beta1 * m_prev + (1 - beta1) * g"
    and "v = beta2 * v_prev + (1 - beta2) * g\<^sup>2"
    and "m_hat = m / (1 - beta1 ^ n)"
    and "v_hat = v / (1 - beta2 ^ n)"
    and "1 - beta1 ^ n \<noteq> 0" "1 - beta2 ^ n \<noteq> 0" "0 \<le> v_hat" "sqrt v_hat + epsilon \<noteq> 0"
  shows "step (updates (adam gradients params lr beta1 beta2 epsilon)) inp s (V_m_prev i) = Some m"
    and "step (updates (adam gradients params lr beta1 beta2 epsilon)) inp s (V_v_prev i) = Some v"
    and "step (updates (adam gradients params lr beta1 beta2 epsilon)) inp s (Param (params ! i))
          = Some (p - lr * m_hat / (sqrt v_hat + epsilon))"
    and "step (updates (adam gradients params lr beta1 beta2 epsilon)) inp s V_t = Some (real n + 1)"
proof -
  let ?f = "\<lambda>(i, param, gradient).
           let m_prev = V_m_prev i;
               v_prev = V_v_prev i;
               m = EAdd (EMul (EConst beta1) (EVar m_prev))
                     (EMul (EConst (1 - beta1)) gradient);
               v = EAdd (EMul (EConst beta2) (EVar v_prev))
                     (EMul (EConst (1 - beta2)) (EPow gradient (EConst 2)));
               m_hat = EDiv m (ESub (EConst 1) (EPow (EConst beta1) (EVar V_t)));
               v_hat = EDiv v (ESub (EConst 1) (EPow (EConst beta2) (EVar V_t)));
               theta = ESub (EVar (Param param))
                         (EDiv (EMul (EConst lr) m_hat) (EAdd (ESqrt v_hat) (EConst epsilon)))
           in [(m_prev, m), (v_prev, v), (Param param, theta)]"
  let ?zs = "enumerate 0 (zip params gradients)"
  let ?ups = "updates (adam gradients params lr beta1 beta2 epsilon)"
  let ?tl = "[(V_t, EAdd (EVar V_t) (EConst 1))]"
  have G: "?ups = concat (map ?f ?zs) @ ?tl"
    by (simp add: adam_def Let_def)
  have nt: "V_t \<notin> fst ` set (concat (map ?f ?zs))"
    by (auto simp: Let_def)
  have "step (concat (map ?f ?zs) @ ?tl) inp s V_t = step ?tl inp s V_t"
    using nt by (rule step_append_right)
  with assms(7) G show "step ?ups inp s V_t = Some (real n + 1)"
    by (simp add: step_def)
  have len: "i < length ?zs"
    using assms(2,3) by simp
  have zi: "?zs ! i = (i, params ! i, gradients ! i)"
    using assms(2,3) by (simp add: nth_enumerate_eq)
  have zj: "\<And>j. j < i \<Longrightarrow> ?zs ! j = (j, params ! j, gradients ! j)"
    using assms(2,3) by (simp add: nth_enumerate_eq)
  have fi: "?f (?zs ! i) = ?f (i, params ! i, gradients ! i)"
    by (simp only: zi)
  have pj: "\<And>j. j < i \<Longrightarrow> params ! j \<noteq> params ! i"
    using assms(1,2) by (simp add: nth_eq_iff_index_eq)
  have inner: "step (concat (map ?f ?zs)) inp s k = step (?f (?zs ! i)) inp s k"
    if "k \<in> {V_m_prev i, V_v_prev i, Param (params ! i)}" for k
  proof (rule step_concat_map_nth[OF len])
    show "\<forall>j<i. k \<notin> fst ` set (?f (?zs ! j))"
    proof (intro allI impI)
      fix j assume "j < i"
      from zj[OF this] pj[OF this] that \<open>j < i\<close>
      show "k \<notin> fst ` set (?f (?zs ! j))"
        by (auto simp: Let_def)
    qed
    show "k \<in> fst ` set (?f (?zs ! i))"
      using that zi by (auto simp: Let_def)
  qed
  have outer: "step ?ups inp s k = step (?f (i, params ! i, gradients ! i)) inp s k"
    if "k \<in> {V_m_prev i, V_v_prev i, Param (params ! i)}" for k
  proof -
    have "k \<in> fst ` set (concat (map ?f ?zs))"
    proof -
      have "?zs ! i \<in> set ?zs" using len by (rule nth_mem)
      moreover have "k \<in> fst ` set (?f (?zs ! i))"
        using that zi by (auto simp: Let_def)
      ultimately show ?thesis by (simp only: set_concat set_map) blast
    qed
    then have "step (concat (map ?f ?zs) @ ?tl) inp s k = step (concat (map ?f ?zs)) inp s k"
      by (rule step_append_left)
    with inner[OF that] G fi show ?thesis by simp
  qed
  show "step ?ups inp s (V_m_prev i) = Some m"
    by (subst outer) (use assms(4-) in \<open>simp_all add: step_def Let_def\<close>)
  show "step ?ups inp s (V_v_prev i) = Some v"
    by (subst outer) (use assms(4-) in \<open>simp_all add: step_def Let_def float_pow_two\<close>)
  show "step ?ups inp s (Param (params ! i)) = Some (p - lr * m_hat / (sqrt v_hat + epsilon))"
    by (subst outer)
      (use assms(4-) in \<open>simp_all add: step_def Let_def float_pow_two float_pow_nat float_div_def float_sqrt_def\<close>)
qed

lemma adam_step_t:
  "step (updates (adam gradients params lr beta1 beta2 epsilon)) inp s V_t = map_option (\<lambda>t. t + 1) (s V_t)"
proof -
  have "step (updates (adam gradients params lr beta1 beta2 epsilon)) inp s V_t
      = step [(V_t, EAdd (EVar V_t) (EConst 1))] inp s V_t"
    unfolding adam_def Let_def graph.simps
    by (rule step_append_right) (auto simp: Let_def)
  then show ?thesis
    by (cases "s V_t") (simp_all add: step_def)
qed

lemma steps_counter:
  assumes "\<And>inp s. step ups inp s V_t = map_option (\<lambda>t. t + 1) (s V_t)"
    and "s V_t = Some t0"
  shows "steps ups inps s V_t = Some (t0 + real (length inps))"
  using assms(2)
proof (induction inps arbitrary: s t0)
  case Nil
  then show ?case by (simp add: steps_def)
next
  case (Cons inp inps)
  have "step ups inp s V_t = Some (t0 + 1)"
    using Cons.prems by (simp add: assms(1))
  then have "steps ups inps (step ups inp s) V_t = Some (t0 + 1 + real (length inps))"
    by (rule Cons.IH)
  then show ?case
    by (simp add: steps_def add.assoc add.commute)
qed

subsection \<open>One step with zero gradients and zero accumulators\<close>

lemma sgd_zero:
  assumes "\<forall>g\<in>set gradients. eval inp s g = Some 0" and "s V_lr = Some lr"
  shows "step (updates (sgd gradients params lr0)) inp s = s"
proof (rule step_fixed)
  fix x e assume "(x, e) \<in> set (updates (sgd gradients params lr0))"
  then obtain p g where pg: "(p, g) \<in> set (zip params gradients)"
    and xe: "x = Param p" "e = ESub (EVar (Param p)) (EMul (EVar V_lr) g)"
    by (auto simp: sgd_def)
  from pg have "g \<in> set gradients" by (rule set_zip_rightD)
  with assms have "eval inp s g = Some 0" by blast
  with assms(2) xe show "eval inp s e = s x"
    by (cases "s (Param p)") simp_all
qed

lemma sgdmomentum_zero:
  assumes "sgdmomentum gradients params lr0 momentum0 = Inr G"
    and "\<forall>g\<in>set gradients. eval inp s g = Some 0"
    and "s V_lr = Some lr" "s V_momentum = Some momentum"
    and "\<forall>i. s (V_velocity i) = Some 0"
  shows "step (updates G) inp s = s"
proof (rule step_fixed)
  fix x e assume "(x, e) \<in> set (updates G)"
  with assms(1) obtain p g a where pg: "(p, g, a) \<in> set (zip params (zip gradients (map V_velocity [0..<length params])))"
    and xe: "(x, e) \<in> set [(a, ESub (EMul (EVar V_momentum) (EVar a)) (EMul (EVar V_lr) g)),
        (Param p, EAdd (EVar (Param p)) (ESub (EMul (EVar V_momentum) (EVar a)) (EMul (EVar V_lr) g)))]"
    by (auto simp: sgdmomentum_def Let_def split: if_splits)
  from pg have "(g, a) \<in> set (zip gradients (map V_velocity [0..<length params]))"
    by (rule set_zip_rightD)
  then have "g \<in> set gradients" and "a \<in> set (map V_velocity [0..<length params])"
    by (auto dest: set_zip_leftD set_zip_rightD)
  with assms have g: "eval inp s g = Some 0" and a: "s a = Some 0" by auto
  from xe g a assms(3,4) show "eval inp s e = s x"
    by (cases "s (Param p)") auto
qed

lemma adagrad_zero:
  assumes "\<forall>g\<in>set gradients. eval inp s g = Some 0"
    and "s V_lr = Some lr" "s V_epsilon = Some epsilon" "0 < epsilon"
    and "\<forall>i. s (V_gsum i) = Some 0"
  shows "step (updates (adagrad gradients params lr0 epsilon0)) inp s = s"
proof (rule step_fixed)
  fix x e assume "(x, e) \<in> set (updates (adagrad gradients params lr0 epsilon0))"
  then obtain p g a where pg: "(p, g, a) \<in> set (zip params (zip gradients (map V_gsum [0..<length params])))"
    and xe: "(x, e) \<in> set [(a, EAdd (EVar a) (EPow g (EConst 2))),
               (Param p,
                ESub (EVar (Param p))
                  (EDiv (EMul (EVar V_lr) g)
                     (ESqrt (EAdd (EAdd (EVar a) (EPow g (EConst 2))) (EVar V_epsilon)))))]"
    by (auto simp: adagrad_def Let_def)
  from pg have "(g, a) \<in> set (zip gradients (map V_gsum [0..<length params]))"
    by (rule set_zip_rightD)
  then have "g \<in> set gradients" and "a \<in> set (map V_gsum [0..<length params])"
    by (auto dest: set_zip_leftD set_zip_rightD)
  with assms have g: "eval inp s g = Some 0" and a: "s a = Some 0" by auto
  from xe g a assms(2-4) show "eval inp s e = s x"
    by (cases "s (Param p)") (auto simp: float_pow_two float_div_def float_sqrt_def)
qed

lemma adadelta_zero:
  assumes "\<forall>g\<in>set gradients. eval inp s g = Some 0"
    and "s V_rho = Some rho" "s V_epsilon = Some epsilon" "epsilon \<noteq> 0"
    and "\<forall>i. s (V_accu_gradient i) = Some 0" "\<forall>i. s (V_accu_delta i) = Some 0"
  shows "step (updates (adadelta gradients params rho0 epsilon0)) inp s = s"
proof (rule step_fixed)
  fix x e assume "(x, e) \<in> set (updates (adadelta gradients params rho0 epsilon0))"
  then obtain p g a b where pg: "(p, g, a, b) \<in> set (zip params (zip gradients
        (zip (map V_accu_gradient [0..<length params]) (map V_accu_delta [0..<length params]))))"
    and xe: "(x, e) \<in> set (
           let new_accu_gradient =
                 EAdd (EMul (EVar V_rho) (EVar a))
                   (EMul (ESub (EConst 1) (EVar V_rho)) (EPow g (EConst 2)));
               delta_x =
                 EMul (ENeg (ESqrt (EDiv (EAdd (EVar b) (EVar V_epsilon))
                                      (EAdd new_accu_gradient (EVar V_epsilon)))))
                   g;
               new_accu_delta =
                 EAdd (EMul (EVar V_rho) (EVar b))
                   (EMul (ESub (EConst 1) (EVar V_rho)) (EPow delta_x (EConst 2)))
           in [(a, new_accu_gradient),
               (b, new_accu_delta),
               (Param p, EAdd (EVar (Param p)) delta_x)])"
    by (auto simp: adadelta_def Let_def)
  from pg have "(g, a, b) \<in> set (zip gradients
        (zip (map V_accu_gradient [0..<length params]) (map V_accu_delta [0..<length params])))"
    by (rule set_zip_rightD)
  then have "g \<in> set gradients" and "(a, b) \<in> set (zip (map V_accu_gradient [0..<length params]) (map V_accu_delta [0..<length params]))"
    by (auto dest: set_zip_leftD set_zip_rightD)
  then have "g \<in> set gradients" and "a \<in> set (map V_accu_gradient [0..<length params])"
    and "b \<in> set (map V_accu_delta [0..<length params])"
    by (auto dest: set_zip_leftD set_zip_rightD)
  with assms have g: "eval inp s g = Some 0" and a: "s a = Some 0" and b: "s b = Some 0" by auto
  from xe g a b assms(2-4) show "eval inp s e = s x"
    by (cases "s (Param p)") (auto simp: Let_def float_pow_two float_div_def float_sqrt_def)
qed

lemma adam_zero:
  assumes "\<forall>g\<in>set gradients. eval inp s g = Some 0"
    and "s V_t = Some (real n)"
    and "beta1 ^ n \<noteq> 1" "beta2 ^ n \<noteq> 1" "epsilon \<noteq> 0"
    and "\<forall>i. s (V_m_prev i) = Some 0" "\<forall>i. s (V_v_prev i) = Some 0"
  shows "step (updates (adam gradients params lr beta1 beta2 epsilon)) inp s = s(V_t := Some (real n + 1))"
proof
  fix x
  let ?f = "\<lambda>(i, param, gradient).
           let m_prev = V_m_prev i;
               v_prev = V_v_prev i;
               m = EAdd (EMul (EConst beta1) (EVar m_prev))
                     (EMul (EConst (1 - beta1)) gradient);
               v = EAdd (EMul (EConst beta2) (EVar v_prev))
                     (EMul (EConst (1 - beta2)) (EPow gradient (EConst 2)));
               m_hat = EDiv m (ESub (EConst 1) (EPow (EConst beta1) (EVar V_t)));
               v_hat = EDiv v (ESub (EConst 1) (EPow (EConst beta2) (EVar V_t)));
               theta = ESub (EVar (Param param))
                         (EDiv (EMul (EConst lr) m_hat) (EAdd (ESqrt v_hat) (EConst epsilon)))
           in [(m_prev, m), (v_prev, v), (Param param, theta)]"
  let ?zs = "enumerate 0 (zip params gradients)"
  let ?ups = "updates (adam gradients params lr beta1 beta2 epsilon)"
  let ?tl = "[(V_t, EAdd (EVar V_t) (EConst 1))]"
  have G: "?ups = concat (map ?f ?zs) @ ?tl"
    by (simp add: adam_def Let_def)
  have fixed: "step (concat (map ?f ?zs)) inp s = s"
  proof (rule step_fixed)
    fix y e assume "(y, e) \<in> set (concat (map ?f ?zs))"
    then obtain i p g where ipg: "(i, p, g) \<in> set ?zs" and ye: "(y, e) \<in> set (?f (i, p, g))"
      by auto
    from ipg have "(p, g) \<in> set (zip params gradients)"
      by (auto simp: enumerate_eq_zip dest: set_zip_rightD)
    then have "g \<in> set gradients" by (rule set_zip_rightD)
    with assms(1) have g: "eval inp s g = Some 0" by blast
    from assms(6,7) have mv: "s (V_m_prev i) = Some 0" "s (V_v_prev i) = Some 0" by auto
    from ye g mv assms(2-5) show "eval inp s e = s y"
      by (cases "s (Param p)")
         (auto simp: Let_def float_pow_two float_pow_nat float_div_def float_sqrt_def)
  qed
  show "step ?ups inp s x = (s(V_t := Some (real n + 1))) x"
  proof (cases "x = V_t")
    case True
    with adam_step_t[of gradients params lr beta1 beta2 epsilon inp s] assms(2) show ?thesis
      by simp
  next
    case False
    then have "step (concat (map ?f ?zs) @ ?tl) inp s x = step (concat (map ?f ?zs)) inp s x"
      by (intro step_append_not_right) simp
    with G fixed False show ?thesis by simp
  qed
qed

subsection \<open>Which variables an update list writes\<close>

lemma sgd_keys: "map fst (updates (sgd gradients params lr)) = map Param (take (length gradients) params)"
proof -
  have "map fst (concat (map (\<lambda>(p, g). [(Param p, ESub (EVar (Param p)) (EMul (EVar V_lr) g))]) (zip params gradients)))
      = map Param (take (length gradients) params)"
  proof (induction params arbitrary: gradients)
    case Nil
    then show ?case by simp
  next
    case (Cons p ps)
    then show ?case by (cases gradients) simp_all
  qed
  then show ?thesis by (simp add: sgd_def)
qed

lemma adagrad_keys:
  "fst ` set (updates (adagrad gradients params lr epsilon)) \<subseteq> range Param \<union> range V_gsum"
  by (auto simp: adagrad_def Let_def dest!: set_zip_rightD)

lemma adagrad_hyper:
  "step (updates (adagrad gradients params lr epsilon)) inp s V_lr = s V_lr"
  "step (updates (adagrad gradients params lr epsilon)) inp s V_epsilon = s V_epsilon"
  using adagrad_keys[of gradients params lr epsilon]
  by (auto intro!: step_untouched)

lemma length_concat_const:
  assumes "\<And>z. z \<in> set zs \<Longrightarrow> length (f z) = k"
  shows "length (concat (map f zs)) = k * length zs"
  using assms by (induction zs) simp_all

subsection \<open>The size of an Adagrad step\<close>

lemma step_size_less:
  fixes lr g a b :: real
  assumes "lr \<noteq> 0" "g \<noteq> 0" "0 < a" "a < b"
  shows "\<bar>lr * g / sqrt b\<bar> < \<bar>lr * g / sqrt a\<bar>"
proof -
  have "0 < \<bar>lr * g\<bar>" using assms(1,2) by simp
  moreover have "0 < sqrt a" "sqrt a < sqrt b" using assms(3,4) by simp_all
  ultimately have "\<bar>lr * g\<bar> / sqrt b < \<bar>lr * g\<bar> / sqrt a"
    by (intro divide_strict_left_mono) simp_all
  moreover have "0 < sqrt b" using assms(3,4) by simp
  ultimately show ?thesis using \<open>0 < sqrt a\<close>
    by (simp only: abs_divide abs_of_pos)
qed

subsection \<open>Rounding whole numbers to single precision\<close>

lemma round_half_even_of_int: "round_half_even (of_int z) = z"
  by (simp add: round_half_even_def)

lemma float32_exact:
  assumes "x \<noteq> 0" and "x / 2 powi (\<lfloor>log 2 \<bar>x\<bar>\<rfloor> - 23) = of_int z"
  shows "float32 x = x"
proof -
  have "(2::real) powi (\<lfloor>log 2 \<bar>x\<bar>\<rfloor> - 23) \<noteq> 0" by simp
  with assms show ?thesis
    by (simp add: float32_def Let_def round_half_even_of_int del: power_int_eq_0_iff)
       (metis \<open>(2::real) powi (\<lfloor>log 2 \<bar>x\<bar>\<rfloor> - 23) \<noteq> 0\<close> nonzero_divide_eq_eq)
qed

lemma float32_nat:
  assumes "1 \<le> n" "n \<le> 2 ^ 24"
  shows "float32 (real n) = real n"
proof -
  define e where "e = \<lfloor>log 2 (real n)\<rfloor>"
  have n0: "0 < real n" using assms by simp
  have e: "2 powr e \<le> real n" "real n < 2 powr (e + 1)"
    using floor_log_eq_powr_iff[of "real n" 2 e] n0 by (simp_all add: e_def)
  have n24: "real n \<le> 2 ^ 24"
    using assms(2) of_nat_le_iff[of n "2 ^ 24", where ?'a = real] by simp
  have "2 powr (real_of_int e) \<le> (2::real) powr (real_of_int 24)" using e(1) n24 by simp
  moreover have "(1::real) < 2" by simp
  ultimately have "real_of_int e \<le> real_of_int 24"
    by (simp only: powr_le_cancel_iff)
  then have e24: "e \<le> 24" by linarith
  show ?thesis
  proof (cases "e \<le> 23")
    case True
    then obtain k where k: "23 - e = int k" using nonneg_int_cases[of "23 - e"] by auto
    have "real n / 2 powi (e - 23) = real n * 2 powi (23 - e)"
      by (simp add: power_int_diff field_simps)
    also have "\<dots> = of_int (int n * 2 ^ k)"
      by (simp add: k)
    finally have "real n / 2 powi (\<lfloor>log 2 \<bar>real n\<bar>\<rfloor> - 23) = of_int (int n * 2 ^ k)"
      by (simp add: e_def)
    with n0 show ?thesis by (intro float32_exact[where z = "int n * 2 ^ k"]) simp_all
  next
    case False
    with e24 have e: "e = 24" by simp
    with \<open>2 powr e \<le> real n\<close> have "2 ^ 24 \<le> real n" by simp
    with n24 have "real n = 2 ^ 24" by simp
    then have n: "n = 2 ^ 24"
      using of_nat_eq_iff[of n "2 ^ 24", where ?'a = real] by simp
    have fl: "\<lfloor>log 2 \<bar>real n\<bar>\<rfloor> = 24" using e by (simp add: e_def)
    have "real n / 2 powi (\<lfloor>log 2 \<bar>real n\<bar>\<rfloor> - 23) = of_int (2 ^ 23)"
      unfolding fl using n by simp
    with n0 show ?thesis by (intro float32_exact[where z = "2 ^ 23"]) simp_all
  qed
qed

lemma float32_2_24_plus_1: "float32 (2 ^ 24 + 1) = 2 ^ 24"
proof -
  have e: "\<lfloor>log 2 \<bar>2 ^ 24 + 1 :: real\<bar>\<rfloor> = 24"
    using floor_log_eq_powr_iff[of "2 ^ 24 + 1 :: real" 2 24] by simp
  have "round_half_even ((2 ^ 24 + 1) / 2) = 2 ^ 23"
    by (simp add: round_half_even_def Let_def)
  with e show ?thesis
    by (simp add: float32_def Let_def)
qed

lemma steps_f32_counter:
  assumes "\<And>inp s. step ups inp s V_t = map_option (\<lambda>t. t + 1) (s V_t)"
    and "s V_t = Some (real m)" "1 \<le> m" "m \<le> 2 ^ 24"
  shows "steps_f32 ups inps s V_t = Some (real (min (m + length inps) (2 ^ 24)))"
  using assms(2-)
proof (induction inps arbitrary: s m)
  case Nil
  then show ?case by (simp add: steps_f32_def)
next
  case (Cons inp inps)
  let ?m' = "min (Suc m) (2 ^ 24)"
  have "step_f32 ups inp s V_t = Some (float32 (real m + 1))"
    using Cons.prems(1) by (simp add: step_f32_def assms(1))
  moreover have "float32 (real m + 1) = real ?m'"
  proof (cases "m < 2 ^ 24")
    case True
    then have "float32 (real (Suc m)) = real (Suc m)"
      by (intro float32_nat) simp_all
    with True show ?thesis by (simp add: min_def add.commute)
  next
    case False
    with Cons.prems(3) have "m = 2 ^ 24" by simp
    then show ?thesis using float32_2_24_plus_1 by simp
  qed
  ultimately have "step_f32 ups inp s V_t = Some (real ?m')" by simp
  moreover have "1 \<le> ?m'" "?m' \<le> 2 ^ 24" by simp_all
  ultimately have "steps_f32 ups inps (step_f32 ups inp s) V_t
      = Some (real (min (?m' + length inps) (2 ^ 24)))"
    by (rule Cons.IH)
  moreover have "min (?m' + length inps) (2 ^ 24) = min (m + length (inp # inps)) (2 ^ 24)"
    by (simp add: min_def)
  ultimately show ?case by (simp add: steps_f32_def)
qed

subsection \<open>What a parameter update of Adam reads\<close>

lemma adam_param_update:
  assumes "distinct params" "i < length params" "i < length gradients"
  shows "step (updates (adam gradients params lr beta1 beta2 epsilon)) inp s (Param (params ! i))
     = eval inp s
         (ESub (EVar (Param (params ! i)))
            (EDiv (EMul (EConst lr)
                     (EDiv (EAdd (EMul (EConst beta1) (EVar (V_m_prev i)))
                              (EMul (EConst (1 - beta1)) (gradients ! i)))
                        (ESub (EConst 1) (EPow (EConst beta1) (EVar V_t)))))
               (EAdd (ESqrt (EDiv (EAdd (EMul (EConst beta2) (EVar (V_v_prev i)))
                                     (EMul (EConst (1 - beta2)) (EPow (gradients ! i) (EConst 2))))
                               (ESub (EConst 1) (EPow (EConst beta2) (EVar V_t)))))
                  (EConst epsilon))))"
proof -
  let ?f = "\<lambda>(i, param, gradient).
           let m_prev = V_m_prev i;
               v_prev = V_v_prev i;
               m = EAdd (EMul (EConst beta1) (EVar m_prev))
                     (EMul (EConst (1 - beta1)) gradient);
               v = EAdd (EMul (EConst beta2) (EVar v_prev))
                     (EMul (EConst (1 - beta2)) (EPow gradient (EConst 2)));
               m_hat = EDiv m (ESub (EConst 1) (EPow (EConst beta1) (EVar V_t)));
               v_hat = EDiv v (ESub (EConst 1) (EPow (EConst beta2) (EVar V_t)));
               theta = ESub (EVar (Param param))
                         (EDiv (EMul (EConst lr) m_hat) (EAdd (ESqrt v_hat) (EConst epsilon)))
           in [(m_prev, m), (v_prev, v), (Param param, theta)]"
  let ?zs = "enumerate 0 (zip params gradients)"
  let ?ups = "updates (adam gradients params lr beta1 beta2 epsilon)"
  let ?tl = "[(V_t, EAdd (EVar V_t) (EConst 1))]"
  let ?k = "Param (params ! i)"
  have G: "?ups = concat (map ?f ?zs) @ ?tl"
    by (simp add: adam_def Let_def)
  have len: "i < length ?zs"
    using assms(2,3) by simp
  have zi: "?zs ! i = (i, params ! i, gradients ! i)"
    using assms(2,3) by (simp add: nth_enumerate_eq)
  have zj: "\<And>j. j < i \<Longrightarrow> ?zs ! j = (j, params ! j, gradients ! j)"
    using assms(2,3) by (simp add: nth_enumerate_eq)
  have pj: "\<And>j. j < i \<Longrightarrow> params ! j \<noteq> params ! i"
    using assms(1,2) by (simp add: nth_eq_iff_index_eq)
  have ki: "?k \<in> fst ` set (?f (?zs ! i))"
    using zi by (auto simp: Let_def)
  have inner: "step (concat (map ?f ?zs)) inp s ?k = step (?f (?zs ! i)) inp s ?k"
  proof (rule step_concat_map_nth[OF len])
    show "?k \<in> fst ` set (?f (?zs ! i))" by (rule ki)
    show "\<forall>j<i. ?k \<notin> fst ` set (?f (?zs ! j))"
    proof (intro allI impI)
      fix j assume "j < i"
      from zj[OF this] pj[OF this]
      show "?k \<notin> fst ` set (?f (?zs ! j))"
        by (auto simp: Let_def)
    qed
  qed
  have "?k \<in> fst ` set (concat (map ?f ?zs))"
  proof -
    have "?zs ! i \<in> set ?zs" using len by (rule nth_mem)
    with ki show ?thesis by (simp only: set_concat set_map) blast
  qed
  then have "step (concat (map ?f ?zs) @ ?tl) inp s ?k = step (concat (map ?f ?zs)) inp s ?k"
    by (rule step_append_left)
  with inner G have "step ?ups inp s ?k = step (?f (i, params ! i, gradients ! i)) inp s ?k"
    by (simp only: zi)
  then show ?thesis
    by (simp add: step_def Let_def)
qed

lemma adam_param_reads_t:
  assumes "(Param p, e) \<in> set (updates (adam gradients params lr beta1 beta2 epsilon))"
  shows "V_t \<in> reads e"
  using assms by (auto simp: adam_def Let_def)

section \<open>The claims\<close>

subsection \<open>C1: the Adam recurrence\<close>

text \<open>
  C1: for every parameter, one step of \<open>adam\<close> computes
  \<open>m = beta1 * m_prev + (1 - beta1) * g\<close>, \<open>v = beta2 * v_prev + (1 - beta2) * g\<^sup>2\<close>,
  \<open>m_hat = m / (1 - beta1 ^ t)\<close>, \<open>v_hat = v / (1 - beta2 ^ t)\<close> with the value of \<open>t\<close>
  before the step, and sets the parameter to \<open>p - lr * m_hat / (sqrt v_hat + epsilon)\<close>,
  with \<open>epsilon\<close> added after the square root. The counter holds a whole number \<open>n\<close>
  (it starts at 1 and grows by 1), and the hypotheses on the denominators say that the
  formula stays within the real numbers.
\<close>

theorem adam_step_formula:
  assumes "distinct params" "i < length params" "i < length gradients"
    and "s (Param (params ! i)) = Some p"
    and "s (V_m_prev i) = Some m_prev" "s (V_v_prev i) = Some v_prev"
    and "s V_t = Some (real n)"
    and "eval inp s (gradients ! i) = Some g"
    and "m = beta1 * m_prev + (1 - beta1) * g"
    and "v = beta2 * v_prev + (1 - beta2) * g\<^sup>2"
    and "m_hat = m / (1 - beta1 ^ n)"
    and "v_hat = v / (1 - beta2 ^ n)"
    and "1 - beta1 ^ n \<noteq> 0" "1 - beta2 ^ n \<noteq> 0" "0 \<le> v_hat" "sqrt v_hat + epsilon \<noteq> 0"
  shows "step (updates (adam gradients params lr beta1 beta2 epsilon)) inp s (V_m_prev i) = Some m
       \<and> step (updates (adam gradients params lr beta1 beta2 epsilon)) inp s (V_v_prev i) = Some v
       \<and> step (updates (adam gradients params lr beta1 beta2 epsilon)) inp s (Param (params ! i))
          = Some (p - lr * m_hat / (sqrt v_hat + epsilon))
       \<and> step (updates (adam gradients params lr beta1 beta2 epsilon)) inp s V_t = Some (real n + 1)"
  using adam_step[OF assms] by simp

text \<open>
  The example of the spec: \<open>beta1 = 0.9\<close>, \<open>beta2 = 0.999\<close>, \<open>epsilon = 1e-8\<close>,
  \<open>lr = 0.001\<close>, one step from \<open>param = 1\<close>, \<open>gradient = 1\<close>, \<open>m = v = 0\<close>, \<open>t = 1\<close>.
\<close>

theorem adam_step_formula_witness:
  "step (updates (adam [EConst 1] [0] (1/1000) (9/10) (999/1000) (1/100000000))) (\<lambda>_. None)
      (\<lambda>x. if x = V_t \<or> x = Param 0 then Some 1 else Some 0) (V_m_prev 0) = Some (1/10)
   \<and> step (updates (adam [EConst 1] [0] (1/1000) (9/10) (999/1000) (1/100000000))) (\<lambda>_. None)
      (\<lambda>x. if x = V_t \<or> x = Param 0 then Some 1 else Some 0) (V_v_prev 0) = Some (1/1000)
   \<and> step (updates (adam [EConst 1] [0] (1/1000) (9/10) (999/1000) (1/100000000))) (\<lambda>_. None)
      (\<lambda>x. if x = V_t \<or> x = Param 0 then Some 1 else Some 0) (Param 0)
       = Some (1 - (1/1000) * 1 / (1 + 1/100000000))
   \<and> step (updates (adam [EConst 1] [0] (1/1000) (9/10) (999/1000) (1/100000000))) (\<lambda>_. None)
      (\<lambda>x. if x = V_t \<or> x = Param 0 then Some 1 else Some 0) V_t = Some 2"
  using adam_step_formula[where params = "[0]" and i = 0 and gradients = "[EConst 1]"
      and s = "\<lambda>x. if x = V_t \<or> x = Param 0 then Some 1 else Some 0" and p = 1
      and m_prev = 0 and v_prev = 0 and n = 1 and inp = "\<lambda>_. None" and g = 1
      and ?beta1.0 = "9/10" and ?beta2.0 = "999/1000" and m = "1/10" and v = "1/1000"
      and m_hat = 1 and v_hat = 1 and epsilon = "1/100000000" and lr = "1/1000"]
  by simp

subsection \<open>C2: the Adadelta recurrence\<close>

text \<open>
  C2: for every parameter, one step of \<open>adadelta\<close> sets \<open>accu_gradient\<close> to
  \<open>rho * accu_gradient + (1 - rho) * g\<^sup>2\<close>, computes \<open>delta\<close> from that new value and
  from the \<open>accu_delta\<close> of before the step, sets \<open>accu_delta\<close> to
  \<open>rho * accu_delta + (1 - rho) * delta\<^sup>2\<close> with that \<open>delta\<close>, and the parameter to
  \<open>p + delta\<close>.
\<close>

theorem adadelta_step_formula:
  assumes "distinct params" "i < length params" "i < length gradients"
    and "s (Param (params ! i)) = Some p" "s V_rho = Some rho" "s V_epsilon = Some epsilon"
    and "s (V_accu_gradient i) = Some accu_gradient"
    and "s (V_accu_delta i) = Some accu_delta"
    and "eval inp s (gradients ! i) = Some g"
    and "accu_gradient_new = rho * accu_gradient + (1 - rho) * g\<^sup>2"
    and "delta = - sqrt ((accu_delta + epsilon) / (accu_gradient_new + epsilon)) * g"
    and "accu_gradient_new + epsilon \<noteq> 0"
    and "0 \<le> (accu_delta + epsilon) / (accu_gradient_new + epsilon)"
  shows "step (updates (adadelta gradients params rho epsilon)) inp s (V_accu_gradient i)
          = Some accu_gradient_new
       \<and> step (updates (adadelta gradients params rho epsilon)) inp s (V_accu_delta i)
          = Some (rho * accu_delta + (1 - rho) * delta\<^sup>2)
       \<and> step (updates (adadelta gradients params rho epsilon)) inp s (Param (params ! i))
          = Some (p + delta)"
  using adadelta_step[OF assms] by simp

theorem adadelta_step_formula_witness:
  "step (updates (adadelta [EConst 1] [0] (1/2) 1)) (\<lambda>_. None)
      (\<lambda>x. if x = V_rho then Some (1/2) else Some 1) (V_accu_gradient 0) = Some 1
   \<and> step (updates (adadelta [EConst 1] [0] (1/2) 1)) (\<lambda>_. None)
      (\<lambda>x. if x = V_rho then Some (1/2) else Some 1) (V_accu_delta 0) = Some 1
   \<and> step (updates (adadelta [EConst 1] [0] (1/2) 1)) (\<lambda>_. None)
      (\<lambda>x. if x = V_rho then Some (1/2) else Some 1) (Param 0) = Some 0"
  using adadelta_step_formula[where params = "[0]" and i = 0 and gradients = "[EConst 1]"
      and s = "\<lambda>x. if x = V_rho then Some (1/2) else Some 1" and p = 1 and rho = "1/2"
      and epsilon = 1 and accu_gradient = 1 and accu_delta = 1 and inp = "\<lambda>_. None" and g = 1
      and accu_gradient_new = 1 and delta = "-1"]
  by simp

subsection \<open>C4: hyperparameters outside their domain\<close>

text \<open>
  C4, as amended: \<open>sgdmomentum\<close> fails, with an assertion error, exactly when
  \<open>momentum\<close> is outside \<open>[0, 1)\<close>, so for \<open>momentum = 1.0\<close> and \<open>momentum = -0.1\<close>.
  No other hyperparameter is checked: \<open>adagrad\<close>, \<open>adadelta\<close> and \<open>adam\<close> return their
  update list (two, three and three updates for each pair of a parameter and a
  gradient, and for \<open>adam\<close> the update of \<open>t\<close>) whatever the values of \<open>epsilon\<close>,
  \<open>rho\<close>, \<open>beta1\<close> and \<open>beta2\<close>.
\<close>

theorem momentum_is_the_only_check:
  "(sgdmomentum gradients params lr momentum = Inl AssertionError)
      = (\<not> (0 \<le> momentum \<and> momentum < 1))
   \<and> sgdmomentum gradients params lr 1 = Inl AssertionError
   \<and> sgdmomentum gradients params lr (- (1/10)) = Inl AssertionError
   \<and> length (updates (adagrad gradients params lr epsilon))
       = 2 * min (length params) (length gradients)
   \<and> length (updates (adadelta gradients params rho epsilon))
       = 3 * min (length params) (length gradients)
   \<and> length (updates (adam gradients params lr beta1 beta2 epsilon))
       = Suc (3 * min (length params) (length gradients))"
proof -
  have "length (updates (adagrad gradients params lr epsilon))
       = 2 * length (zip params (zip gradients (map V_gsum [0..<length params])))"
    unfolding adagrad_def Let_def graph.simps
    by (rule length_concat_const) auto
  moreover have "length (updates (adadelta gradients params rho epsilon))
       = 3 * length (zip params (zip gradients
           (zip (map V_accu_gradient [0..<length params]) (map V_accu_delta [0..<length params]))))"
    unfolding adadelta_def Let_def graph.simps
    by (rule length_concat_const) auto
  moreover have "length (concat (map (\<lambda>(i, param, gradient).
           let m_prev = V_m_prev i;
               v_prev = V_v_prev i;
               m = EAdd (EMul (EConst beta1) (EVar m_prev))
                     (EMul (EConst (1 - beta1)) gradient);
               v = EAdd (EMul (EConst beta2) (EVar v_prev))
                     (EMul (EConst (1 - beta2)) (EPow gradient (EConst 2)));
               m_hat = EDiv m (ESub (EConst 1) (EPow (EConst beta1) (EVar V_t)));
               v_hat = EDiv v (ESub (EConst 1) (EPow (EConst beta2) (EVar V_t)));
               theta = ESub (EVar (Param param))
                         (EDiv (EMul (EConst lr) m_hat) (EAdd (ESqrt v_hat) (EConst epsilon)))
           in [(m_prev, m), (v_prev, v), (Param param, theta)])
         (enumerate 0 (zip params gradients))))
       = 3 * length (enumerate 0 (zip params gradients))"
    by (rule length_concat_const) (auto simp: Let_def)
  ultimately show ?thesis
    by (simp add: sgdmomentum_def adagrad_def adadelta_def adam_def Let_def min_def)
qed

theorem momentum_is_the_only_check_witness:
  "sgdmomentum [EConst 1] [0] 1 1 = Inl AssertionError
   \<and> sgdmomentum [EConst 1] [0] 1 (- (1/10)) = Inl AssertionError
   \<and> sgdmomentum [EConst 1] [0] 1 (9/10) \<noteq> Inl AssertionError
   \<and> length (updates (adagrad [EConst 1] [0] 1 (-1))) = 2
   \<and> length (updates (adadelta [EConst 1] [0] 2 (-1))) = 3
   \<and> length (updates (adam [EConst 1] [0] 1 1 (-1) (-1))) = 4"
  using momentum_is_the_only_check[where gradients = "[EConst 1]" and params = "[0]" and lr = 1
      and momentum = "9/10" and rho = 2 and epsilon = "-1" and ?beta1.0 = 1 and ?beta2.0 = "-1"]
  by simp

text \<open>
  The claim as stated fails: \<open>adadelta\<close> with \<open>rho = 2\<close> and \<open>epsilon = -1\<close>,
  \<open>adagrad\<close> with \<open>epsilon = 0\<close> and \<open>adam\<close> with \<open>beta1 = 1\<close>, \<open>beta2 = -1\<close> and
  \<open>epsilon = 0\<close> each return their update list.
\<close>

theorem unchecked_hyperparameters_counterexample:
  "\<not> (0 \<le> (2::real) \<and> (2::real) < 1) \<and> \<not> (0 < (-1::real))
   \<and> map fst (updates (adadelta [EConst 1] [0] 2 (-1)))
       = [V_accu_gradient 0, V_accu_delta 0, Param 0]
   \<and> map fst (updates (adagrad [EConst 1] [0] 1 0)) = [V_gsum 0, Param 0]
   \<and> map fst (updates (adam [EConst 1] [0] 1 1 (-1) 0)) = [V_m_prev 0, V_v_prev 0, Param 0, V_t]"
  by (simp add: adadelta_def adagrad_def adam_def Let_def)

subsection \<open>C5: the counter of Adam\<close>

text \<open>
  C5, as amended: \<open>adam\<close> allocates one counter \<open>t\<close>, with initial value 1. Its update
  list holds one update of \<open>t\<close>, the last entry, \<open>t + 1\<close>. The update expression of every
  parameter reads \<open>t\<close>, and a step evaluates it in the store before the step (the
  expression is written out for a parameter list without duplicates), so every
  parameter sees the same value of \<open>t\<close>, the one before the increment; every variable
  other than \<open>t\<close> gets the value it would get without the last entry. One step sets
  \<open>t\<close> to \<open>t + 1\<close> whatever the number of parameters: in exact arithmetic \<open>t\<close> is
  \<open>1 + k\<close> after \<open>k\<close> steps; held in single precision it is the smaller of \<open>1 + k\<close> and
  \<open>2 ^ 24\<close>, because \<open>2 ^ 24 + 1\<close> rounds back to \<open>2 ^ 24\<close>. Either way \<open>t\<close> never
  decreases and is never 0.
\<close>

theorem adam_counter:
  "filter (\<lambda>(x, v). x = V_t) (shared (adam gradients params lr beta1 beta2 epsilon)) = [(V_t, 1)]
   \<and> filter (\<lambda>(x, e). x = V_t) (updates (adam gradients params lr beta1 beta2 epsilon))
       = [(V_t, EAdd (EVar V_t) (EConst 1))]
   \<and> last (updates (adam gradients params lr beta1 beta2 epsilon)) = (V_t, EAdd (EVar V_t) (EConst 1))
   \<and> (\<forall>(x, e) \<in> set (updates (adam gradients params lr beta1 beta2 epsilon)).
        x \<in> range Param \<longrightarrow> V_t \<in> reads e)
   \<and> (distinct params \<and> i < length params \<and> i < length gradients \<longrightarrow>
        step (updates (adam gradients params lr beta1 beta2 epsilon)) inp s (Param (params ! i))
        = eval inp s
           (ESub (EVar (Param (params ! i)))
              (EDiv (EMul (EConst lr)
                       (EDiv (EAdd (EMul (EConst beta1) (EVar (V_m_prev i)))
                                (EMul (EConst (1 - beta1)) (gradients ! i)))
                          (ESub (EConst 1) (EPow (EConst beta1) (EVar V_t)))))
                 (EAdd (ESqrt (EDiv (EAdd (EMul (EConst beta2) (EVar (V_v_prev i)))
                                       (EMul (EConst (1 - beta2)) (EPow (gradients ! i) (EConst 2))))
                                 (ESub (EConst 1) (EPow (EConst beta2) (EVar V_t)))))
                    (EConst epsilon)))))
   \<and> step (updates (adam gradients params lr beta1 beta2 epsilon)) inp s V_t
       = map_option (\<lambda>t. t + 1) (s V_t)
   \<and> (x \<noteq> V_t \<longrightarrow>
        step (updates (adam gradients params lr beta1 beta2 epsilon)) inp s x
          = step (butlast (updates (adam gradients params lr beta1 beta2 epsilon))) inp s x)
   \<and> steps (updates (adam gradients params lr beta1 beta2 epsilon)) inps
        (init_store (shared (adam gradients params lr beta1 beta2 epsilon)) pvals) V_t
       = Some (1 + real (length inps))
   \<and> steps_f32 (updates (adam gradients params lr beta1 beta2 epsilon)) inps
        (init_store (shared (adam gradients params lr beta1 beta2 epsilon)) pvals) V_t
       = Some (real (min (1 + length inps) (2 ^ 24)))"
proof -
  let ?A = "adam gradients params lr beta1 beta2 epsilon"
  have 1: "filter (\<lambda>(x, v). x = V_t) (shared ?A) = [(V_t, 1)]"
    by (simp add: adam_def Let_def filter_concat filter_empty_conv comp_def split_def)
  have 2: "filter (\<lambda>(x, e). x = V_t) (updates ?A) = [(V_t, EAdd (EVar V_t) (EConst 1))]"
    by (simp add: adam_def Let_def filter_concat filter_empty_conv comp_def split_def)
  have 3: "last (updates ?A) = (V_t, EAdd (EVar V_t) (EConst 1))"
    by (simp add: adam_def Let_def)
  have 4: "\<forall>(x, e) \<in> set (updates ?A). x \<in> range Param \<longrightarrow> V_t \<in> reads e"
    by (auto dest: adam_param_reads_t)
  have "updates ?A = butlast (updates ?A) @ [(V_t, EAdd (EVar V_t) (EConst 1))]"
    by (simp add: adam_def Let_def butlast_append)
  moreover have "step (butlast (updates ?A) @ [(V_t, EAdd (EVar V_t) (EConst 1))]) inp s x
      = step (butlast (updates ?A)) inp s x" if "x \<noteq> V_t"
    using that by (intro step_append_not_right) simp
  ultimately have 7: "x \<noteq> V_t \<longrightarrow> step (updates ?A) inp s x = step (butlast (updates ?A)) inp s x"
    by simp
  have init: "init_store (shared ?A) pvals V_t = Some 1"
    by (simp add: init_store_def adam_def Let_def)
  then have 8: "steps (updates ?A) inps (init_store (shared ?A) pvals) V_t = Some (1 + real (length inps))"
    by (rule steps_counter[OF adam_step_t])
  have "init_store (shared ?A) pvals V_t = Some (real 1)"
    using init by simp
  then have 9: "steps_f32 (updates ?A) inps (init_store (shared ?A) pvals) V_t
      = Some (real (min (1 + length inps) (2 ^ 24)))"
    by (rule steps_f32_counter[OF adam_step_t]) simp_all
  have 5: "distinct params \<and> i < length params \<and> i < length gradients \<longrightarrow>
        step (updates ?A) inp s (Param (params ! i))
        = eval inp s
           (ESub (EVar (Param (params ! i)))
              (EDiv (EMul (EConst lr)
                       (EDiv (EAdd (EMul (EConst beta1) (EVar (V_m_prev i)))
                                (EMul (EConst (1 - beta1)) (gradients ! i)))
                          (ESub (EConst 1) (EPow (EConst beta1) (EVar V_t)))))
                 (EAdd (ESqrt (EDiv (EAdd (EMul (EConst beta2) (EVar (V_v_prev i)))
                                       (EMul (EConst (1 - beta2)) (EPow (gradients ! i) (EConst 2))))
                                 (ESub (EConst 1) (EPow (EConst beta2) (EVar V_t)))))
                    (EConst epsilon))))"
    using adam_param_update[of params i gradients lr beta1 beta2 epsilon inp s] by blast
  have 6: "step (updates ?A) inp s V_t = map_option (\<lambda>t. t + 1) (s V_t)"
    by (rule adam_step_t)
  show ?thesis
    by (intro conjI) (rule 1 2 3 4 5 6 7 8 9)+
qed

theorem adam_counter_witness:
  "steps (updates (adam [EConst 1] [0] 1 (1/2) (1/2) 1)) [\<lambda>_. None, \<lambda>_. None]
        (init_store (shared (adam [EConst 1] [0] 1 (1/2) (1/2) 1)) (\<lambda>_. Some 0)) V_t = Some 3
   \<and> steps_f32 (updates (adam [EConst 1] [0] 1 (1/2) (1/2) 1)) [\<lambda>_. None, \<lambda>_. None]
        (init_store (shared (adam [EConst 1] [0] 1 (1/2) (1/2) 1)) (\<lambda>_. Some 0)) V_t = Some 3
   \<and> step (updates (adam [EConst 1] [0] 1 (1/2) (1/2) 1)) (\<lambda>_. None)
        (\<lambda>x. if x = V_t \<or> x = Param 0 then Some 1 else Some 0) V_t = Some 2
   \<and> step (updates (adam [EConst 1] [0] 1 (1/2) (1/2) 1)) (\<lambda>_. None)
        (\<lambda>x. if x = V_t \<or> x = Param 0 then Some 1 else Some 0) (Param 0) = Some (1/2)"
proof -
  note w = adam_counter[where gradients = "[EConst 1]" and params = "[0]" and lr = 1
      and ?beta1.0 = "1/2" and ?beta2.0 = "1/2" and epsilon = 1 and inp = "\<lambda>_. None"
      and s = "\<lambda>x. if x = V_t \<or> x = Param 0 then Some 1 else Some 0"
      and inps = "[\<lambda>_. None, \<lambda>_. None]" and pvals = "\<lambda>_. Some 0"
      and x = "Param 0" and i = 0]
  from w have a: "steps (updates (adam [EConst 1] [0] 1 (1/2) (1/2) 1)) [\<lambda>_. None, \<lambda>_. None]
        (init_store (shared (adam [EConst 1] [0] 1 (1/2) (1/2) 1)) (\<lambda>_. Some 0)) V_t = Some 3"
    by simp
  from w have b: "steps_f32 (updates (adam [EConst 1] [0] 1 (1/2) (1/2) 1)) [\<lambda>_. None, \<lambda>_. None]
        (init_store (shared (adam [EConst 1] [0] 1 (1/2) (1/2) 1)) (\<lambda>_. Some 0)) V_t = Some 3"
    by simp
  from w have c: "step (updates (adam [EConst 1] [0] 1 (1/2) (1/2) 1)) (\<lambda>_. None)
        (\<lambda>x. if x = V_t \<or> x = Param 0 then Some 1 else Some 0) V_t = Some 2"
    by simp
  from w have d: "step (updates (adam [EConst 1] [0] 1 (1/2) (1/2) 1)) (\<lambda>_. None)
        (\<lambda>x. if x = V_t \<or> x = Param 0 then Some 1 else Some 0) (Param 0) = Some (1/2)"
    by (simp add: float_pow_def float_div_def float_sqrt_def)
  from a b c d show ?thesis by blast
qed

text \<open>
  The claim as stated fails in single precision: at \<open>t = 2 ^ 24\<close> the value of \<open>t + 1\<close>
  is \<open>2 ^ 24 + 1\<close>, which is stored as \<open>2 ^ 24\<close>, so the step does not increment \<open>t\<close>.
\<close>

theorem adam_counter_stops_counterexample:
  "step (updates (adam [EConst 1] [0] (1/1000) (9/10) (999/1000) (1/100000000))) (\<lambda>_. None)
      (\<lambda>_. Some (2 ^ 24)) V_t = Some (2 ^ 24 + 1)
   \<and> float32 (2 ^ 24) = 2 ^ 24
   \<and> float32 (2 ^ 24 + 1) = 2 ^ 24
   \<and> step_f32 (updates (adam [EConst 1] [0] (1/1000) (9/10) (999/1000) (1/100000000))) (\<lambda>_. None)
      (\<lambda>_. Some (2 ^ 24)) V_t = Some (2 ^ 24)"
proof -
  have "float32 (real (2 ^ 24)) = real (2 ^ 24)"
    by (rule float32_nat) simp_all
  then have "float32 (2 ^ 24) = 2 ^ 24" by simp
  then show ?thesis
    using float32_2_24_plus_1 adam_step_t[of "[EConst 1]" "[0]" "1/1000" "9/10" "999/1000" "1/100000000" "\<lambda>_. None" "\<lambda>_. Some (2 ^ 24)"]
    by (simp add: step_f32_def)
qed

subsection \<open>C6: the Adagrad recurrence\<close>

text \<open>
  C6: for every parameter, one step of \<open>adagrad\<close> sets \<open>gsum\<close> to \<open>gsum + g\<^sup>2\<close> and the
  parameter to \<open>p - lr * g / sqrt (gsum + g\<^sup>2 + epsilon)\<close>, with \<open>epsilon\<close> under the
  square root, next to the new \<open>gsum\<close>.
\<close>

theorem adagrad_step_formula:
  assumes "distinct params" "i < length params" "i < length gradients"
    and "s (Param (params ! i)) = Some p" "s V_lr = Some lr" "s V_epsilon = Some epsilon"
    and "s (V_gsum i) = Some gsum"
    and "eval inp s (gradients ! i) = Some g"
    and "0 < gsum + g\<^sup>2 + epsilon"
  shows "step (updates (adagrad gradients params lr epsilon)) inp s (V_gsum i) = Some (gsum + g\<^sup>2)
       \<and> step (updates (adagrad gradients params lr epsilon)) inp s (Param (params ! i))
          = Some (p - lr * g / sqrt (gsum + g\<^sup>2 + epsilon))"
  using adagrad_step[OF assms] by simp

theorem adagrad_step_formula_witness:
  "step (updates (adagrad [EConst 1] [0] 1 1)) (\<lambda>_. None)
      (\<lambda>x. if x = V_gsum 0 then Some 2 else Some 1) (V_gsum 0) = Some 3
   \<and> step (updates (adagrad [EConst 1] [0] 1 1)) (\<lambda>_. None)
      (\<lambda>x. if x = V_gsum 0 then Some 2 else Some 1) (Param 0) = Some (1/2)"
  using adagrad_step_formula[where params = "[0]" and i = 0 and gradients = "[EConst 1]"
      and s = "\<lambda>x. if x = V_gsum 0 then Some 2 else Some 1" and p = 1 and lr = 1
      and epsilon = 1 and gsum = 2 and inp = "\<lambda>_. None" and g = 1]
  by simp

subsection \<open>C7: momentum and plain gradient descent\<close>

text \<open>
  C7: for every parameter, one step of \<open>sgdmomentum\<close> sets the velocity to
  \<open>momentum * velocity - lr * g\<close> and the parameter to the old parameter plus that new
  velocity; one step of \<open>sgd\<close> sets the parameter to \<open>p - lr * g\<close>. \<open>sgd\<close> allocates
  nothing but the learning rate and writes nothing but the parameters, so its step
  does not depend on earlier calls.
\<close>

theorem momentum_and_sgd_step:
  assumes "sgdmomentum gradients params lr momentum = Inr G"
    and "distinct params" "i < length params" "i < length gradients"
    and "s (Param (params ! i)) = Some p" "s V_lr = Some lr" "s V_momentum = Some momentum"
    and "s (V_velocity i) = Some velocity"
    and "eval inp s (gradients ! i) = Some g"
  shows "step (updates G) inp s (V_velocity i) = Some (momentum * velocity - lr * g)
       \<and> step (updates G) inp s (Param (params ! i)) = Some (p + (momentum * velocity - lr * g))
       \<and> step (updates (sgd gradients params lr)) inp s (Param (params ! i)) = Some (p - lr * g)
       \<and> shared (sgd gradients params lr) = [(V_lr, lr)]
       \<and> map fst (updates (sgd gradients params lr)) = map Param (take (length gradients) params)"
  using sgdmomentum_step[OF assms] sgd_step[OF assms(2-6) assms(9)] sgd_keys
  by (simp add: sgd_def)

theorem momentum_and_sgd_step_witness:
  "\<exists>G. sgdmomentum [EConst 2] [0] (1/2) (1/2) = Inr G
     \<and> step (updates G) (\<lambda>_. None) (\<lambda>_. Some (1/2)) (V_velocity 0) = Some (- (3/4))
     \<and> step (updates G) (\<lambda>_. None) (\<lambda>_. Some (1/2)) (Param 0) = Some (- (1/4))
     \<and> step (updates (sgd [EConst 2] [0] (1/2))) (\<lambda>_. None) (\<lambda>_. Some (1/2)) (Param 0) = Some (- (1/2))"
proof -
  have c: "sgdmomentum [EConst 2] [0] (1/2) (1/2) = Inr (projr (sgdmomentum [EConst 2] [0] (1/2) (1/2)))"
    by (simp add: sgdmomentum_def)
  have "step (updates (projr (sgdmomentum [EConst 2] [0] (1/2) (1/2)))) (\<lambda>_. None) (\<lambda>_. Some (1/2)) (V_velocity 0)
          = Some (1/2 * (1/2) - 1/2 * 2)
       \<and> step (updates (projr (sgdmomentum [EConst 2] [0] (1/2) (1/2)))) (\<lambda>_. None) (\<lambda>_. Some (1/2)) (Param ([0] ! 0))
          = Some (1/2 + (1/2 * (1/2) - 1/2 * 2))
       \<and> step (updates (sgd [EConst 2] [0] (1/2))) (\<lambda>_. None) (\<lambda>_. Some (1/2)) (Param ([0] ! 0))
          = Some (1/2 - 1/2 * 2)
       \<and> shared (sgd [EConst 2] [0] (1/2)) = [(V_lr, 1/2)]
       \<and> map fst (updates (sgd [EConst 2] [0] (1/2))) = map Param (take (length [EConst 2]) [0])"
    by (rule momentum_and_sgd_step[OF c]) simp_all
  with c show ?thesis by (intro exI[of _ "projr (sgdmomentum [EConst 2] [0] (1/2) (1/2))"]) simp
qed

subsection \<open>C8: a step with zero gradients\<close>

text \<open>
  C8, as amended: when every gradient is zero and every accumulator is zero, one step
  leaves the whole store, so every parameter, as it is (but for the counter of Adam,
  which still grows by 1), under these conditions on the hyperparameters the step
  reads: the stored \<open>lr\<close>, \<open>momentum\<close>, \<open>epsilon\<close> and \<open>rho\<close> are numbers; for \<open>adagrad\<close>
  the stored \<open>epsilon\<close> is positive; for \<open>adadelta\<close> it is not zero; for \<open>adam\<close>
  \<open>epsilon\<close> is not zero, \<open>t\<close> is a whole number \<open>n\<close>, and neither \<open>beta1 ^ n\<close> nor
  \<open>beta2 ^ n\<close> is 1. \<open>sgd\<close> and \<open>sgdmomentum\<close> need no condition. The arguments
  \<open>lr0\<close>, \<open>momentum0\<close>, \<open>epsilon0\<close> and \<open>rho0\<close> of the calls are arbitrary: the update
  lists do not depend on them.
\<close>

theorem zero_gradient_step:
  assumes "\<forall>g\<in>set gradients. eval inp s g = Some 0"
    and "sgdmomentum gradients params lr0 momentum0 = Inr G"
    and "s V_lr = Some lr" "s V_momentum = Some momentum"
    and "s V_epsilon = Some epsilon" "s V_rho = Some rho"
    and "s V_t = Some (real n)"
    and "\<forall>i. s (V_velocity i) = Some 0"
    and "\<forall>i. s (V_gsum i) = Some 0"
    and "\<forall>i. s (V_accu_gradient i) = Some 0" "\<forall>i. s (V_accu_delta i) = Some 0"
    and "\<forall>i. s (V_m_prev i) = Some 0" "\<forall>i. s (V_v_prev i) = Some 0"
  shows "step (updates (sgd gradients params lr0)) inp s = s
       \<and> step (updates G) inp s = s
       \<and> (0 < epsilon \<longrightarrow> step (updates (adagrad gradients params lr0 epsilon0)) inp s = s)
       \<and> (epsilon \<noteq> 0 \<longrightarrow> step (updates (adadelta gradients params rho0 epsilon0)) inp s = s)
       \<and> (eps \<noteq> 0 \<and> beta1 ^ n \<noteq> 1 \<and> beta2 ^ n \<noteq> 1 \<longrightarrow>
            step (updates (adam gradients params alpha beta1 beta2 eps)) inp s
              = s(V_t := Some (real n + 1)))"
proof (intro conjI impI)
  show "step (updates (sgd gradients params lr0)) inp s = s"
    using assms(1,3) by (rule sgd_zero)
  show "step (updates G) inp s = s"
    using assms(2,1,3,4,8) by (rule sgdmomentum_zero)
  show "step (updates (adagrad gradients params lr0 epsilon0)) inp s = s" if "0 < epsilon"
    using assms(1,3,5) that assms(9) by (rule adagrad_zero)
  show "step (updates (adadelta gradients params rho0 epsilon0)) inp s = s" if "epsilon \<noteq> 0"
    using assms(1,6,5) that assms(10,11) by (rule adadelta_zero)
  show "step (updates (adam gradients params alpha beta1 beta2 eps)) inp s
           = s(V_t := Some (real n + 1))"
    if "eps \<noteq> 0 \<and> beta1 ^ n \<noteq> 1 \<and> beta2 ^ n \<noteq> 1"
  proof -
    from that have "beta1 ^ n \<noteq> 1" "beta2 ^ n \<noteq> 1" "eps \<noteq> 0" by simp_all
    with assms(1,7) show ?thesis using assms(12,13) by (rule adam_zero)
  qed
qed

theorem zero_gradient_step_witness:
  "\<exists>G. sgdmomentum [EConst 0] [0] 1 (1/2) = Inr G
    \<and> step (updates (sgd [EConst 0] [0] 1)) (\<lambda>_. None)
         (\<lambda>x. case x of Param p \<Rightarrow> Some 3 | V_lr \<Rightarrow> Some 1 | V_momentum \<Rightarrow> Some (1/2)
            | V_epsilon \<Rightarrow> Some 1 | V_rho \<Rightarrow> Some (1/2) | V_t \<Rightarrow> Some 1 | _ \<Rightarrow> Some 0)
       = (\<lambda>x. case x of Param p \<Rightarrow> Some 3 | V_lr \<Rightarrow> Some 1 | V_momentum \<Rightarrow> Some (1/2)
            | V_epsilon \<Rightarrow> Some 1 | V_rho \<Rightarrow> Some (1/2) | V_t \<Rightarrow> Some 1 | _ \<Rightarrow> Some 0)
    \<and> step (updates G) (\<lambda>_. None)
         (\<lambda>x. case x of Param p \<Rightarrow> Some 3 | V_lr \<Rightarrow> Some 1 | V_momentum \<Rightarrow> Some (1/2)
            | V_epsilon \<Rightarrow> Some 1 | V_rho \<Rightarrow> Some (1/2) | V_t \<Rightarrow> Some 1 | _ \<Rightarrow> Some 0)
       = (\<lambda>x. case x of Param p \<Rightarrow> Some 3 | V_lr \<Rightarrow> Some 1 | V_momentum \<Rightarrow> Some (1/2)
            | V_epsilon \<Rightarrow> Some 1 | V_rho \<Rightarrow> Some (1/2) | V_t \<Rightarrow> Some 1 | _ \<Rightarrow> Some 0)
    \<and> step (updates (adagrad [EConst 0] [0] 1 1)) (\<lambda>_. None)
         (\<lambda>x. case x of Param p \<Rightarrow> Some 3 | V_lr \<Rightarrow> Some 1 | V_momentum \<Rightarrow> Some (1/2)
            | V_epsilon \<Rightarrow> Some 1 | V_rho \<Rightarrow> Some (1/2) | V_t \<Rightarrow> Some 1 | _ \<Rightarrow> Some 0) (Param 0)
       = Some 3
    \<and> step (updates (adadelta [EConst 0] [0] (1/2) 1)) (\<lambda>_. None)
         (\<lambda>x. case x of Param p \<Rightarrow> Some 3 | V_lr \<Rightarrow> Some 1 | V_momentum \<Rightarrow> Some (1/2)
            | V_epsilon \<Rightarrow> Some 1 | V_rho \<Rightarrow> Some (1/2) | V_t \<Rightarrow> Some 1 | _ \<Rightarrow> Some 0) (Param 0)
       = Some 3
    \<and> step (updates (adam [EConst 0] [0] 1 (1/2) (1/2) 1)) (\<lambda>_. None)
         (\<lambda>x. case x of Param p \<Rightarrow> Some 3 | V_lr \<Rightarrow> Some 1 | V_momentum \<Rightarrow> Some (1/2)
            | V_epsilon \<Rightarrow> Some 1 | V_rho \<Rightarrow> Some (1/2) | V_t \<Rightarrow> Some 1 | _ \<Rightarrow> Some 0) (Param 0)
       = Some 3
    \<and> step (updates (adam [EConst 0] [0] 1 (1/2) (1/2) 1)) (\<lambda>_. None)
         (\<lambda>x. case x of Param p \<Rightarrow> Some 3 | V_lr \<Rightarrow> Some 1 | V_momentum \<Rightarrow> Some (1/2)
            | V_epsilon \<Rightarrow> Some 1 | V_rho \<Rightarrow> Some (1/2) | V_t \<Rightarrow> Some 1 | _ \<Rightarrow> Some 0) V_t
       = Some 2"
proof -
  define s :: store where "s = (\<lambda>x. case x of Param p \<Rightarrow> Some 3 | V_lr \<Rightarrow> Some 1
     | V_momentum \<Rightarrow> Some (1/2) | V_epsilon \<Rightarrow> Some 1 | V_rho \<Rightarrow> Some (1/2) | V_t \<Rightarrow> Some 1
     | _ \<Rightarrow> Some 0)"
  have c: "sgdmomentum [EConst 0] [0] 1 (1/2) = Inr (projr (sgdmomentum [EConst 0] [0] 1 (1/2)))"
    by (simp add: sgdmomentum_def)
  have "step (updates (sgd [EConst 0] [0] 1)) (\<lambda>_. None) s = s
       \<and> step (updates (projr (sgdmomentum [EConst 0] [0] 1 (1/2)))) (\<lambda>_. None) s = s
       \<and> ((0::real) < 1 \<longrightarrow> step (updates (adagrad [EConst 0] [0] 1 1)) (\<lambda>_. None) s = s)
       \<and> ((1::real) \<noteq> 0 \<longrightarrow> step (updates (adadelta [EConst 0] [0] (1/2) 1)) (\<lambda>_. None) s = s)
       \<and> ((1::real) \<noteq> 0 \<and> ((1/2)::real) ^ 1 \<noteq> 1 \<and> ((1/2)::real) ^ 1 \<noteq> 1 \<longrightarrow>
            step (updates (adam [EConst 0] [0] 1 (1/2) (1/2) 1)) (\<lambda>_. None) s
              = s(V_t := Some (real 1 + 1)))"
    by (rule zero_gradient_step[OF _ c, where lr = 1 and momentum = "1/2" and epsilon = 1
          and rho = "1/2"]) (simp_all add: s_def)
  then have "step (updates (sgd [EConst 0] [0] 1)) (\<lambda>_. None) s = s
       \<and> step (updates (projr (sgdmomentum [EConst 0] [0] 1 (1/2)))) (\<lambda>_. None) s = s
       \<and> step (updates (adagrad [EConst 0] [0] 1 1)) (\<lambda>_. None) s (Param 0) = Some 3
       \<and> step (updates (adadelta [EConst 0] [0] (1/2) 1)) (\<lambda>_. None) s (Param 0) = Some 3
       \<and> step (updates (adam [EConst 0] [0] 1 (1/2) (1/2) 1)) (\<lambda>_. None) s (Param 0) = Some 3
       \<and> step (updates (adam [EConst 0] [0] 1 (1/2) (1/2) 1)) (\<lambda>_. None) s V_t = Some 2"
    by (simp add: s_def)
  with c show ?thesis
    unfolding s_def by (intro exI[of _ "projr (sgdmomentum [EConst 0] [0] 1 (1/2))"]) simp
qed

text \<open>
  The claim as stated fails: with \<open>epsilon = 0\<close>, which the functions accept, the zero
  gradient is divided by zero, and after one step from the initial store the parameter
  of \<open>adagrad\<close>, of \<open>adadelta\<close> and of \<open>adam\<close> is no number any more.
\<close>

theorem zero_gradient_nan_counterexample:
  "init_store (shared (adagrad [EConst 0] [0] 1 0)) (\<lambda>_. Some 5) (Param 0) = Some 5
   \<and> init_store (shared (adagrad [EConst 0] [0] 1 0)) (\<lambda>_. Some 5) (V_gsum 0) = Some 0
   \<and> step (updates (adagrad [EConst 0] [0] 1 0)) (\<lambda>_. None)
        (init_store (shared (adagrad [EConst 0] [0] 1 0)) (\<lambda>_. Some 5)) (Param 0) = None
   \<and> step (updates (adadelta [EConst 0] [0] (95/100) 0)) (\<lambda>_. None)
        (init_store (shared (adadelta [EConst 0] [0] (95/100) 0)) (\<lambda>_. Some 5)) (Param 0) = None
   \<and> step (updates (adam [EConst 0] [0] (1/1000) (9/10) (999/1000) 0)) (\<lambda>_. None)
        (init_store (shared (adam [EConst 0] [0] (1/1000) (9/10) (999/1000) 0)) (\<lambda>_. Some 5)) (Param 0)
       = None"
  by (simp add: adagrad_def adadelta_def adam_def Let_def init_store_def step_def
      float_pow_two float_pow_def float_div_def float_sqrt_def)

subsection \<open>C9: the step size of Adagrad\<close>

text \<open>
  C9, as amended: in exact arithmetic, for every parameter of a list without
  duplicates, under \<open>adagrad\<close> with a stored learning rate
  other than zero, the same non-zero gradient \<open>g\<close> in two successive steps and
  \<open>gsum + g\<^sup>2 + epsilon\<close> positive at the first of them, \<open>gsum\<close> grows by \<open>g\<^sup>2\<close> in each
  step, the parameter moves by \<open>\<bar>lr * g / sqrt (gsum_new + epsilon)\<bar>\<close>, and the second move
  is strictly smaller than the first. \<open>lr\<close> and \<open>epsilon\<close> are the stored values; the
  arguments \<open>lr0\<close> and \<open>epsilon0\<close> of the call are arbitrary.
\<close>

theorem adagrad_step_size_decreases:
  assumes "distinct params" "i < length params" "i < length gradients"
    and "s0 (Param (params ! i)) = Some p0" "s0 V_lr = Some lr" "s0 V_epsilon = Some epsilon"
    and "s0 (V_gsum i) = Some gsum" "0 < gsum + g\<^sup>2 + epsilon"
    and "s1 = step (updates (adagrad gradients params lr0 epsilon0)) inp1 s0"
    and "s2 = step (updates (adagrad gradients params lr0 epsilon0)) inp2 s1"
    and "eval inp1 s0 (gradients ! i) = Some g"
    and "eval inp2 s1 (gradients ! i) = Some g"
    and "g \<noteq> 0" "lr \<noteq> 0"
  shows "\<exists>p1 p2. s1 (Param (params ! i)) = Some p1 \<and> s2 (Param (params ! i)) = Some p2
      \<and> s1 (V_gsum i) = Some (gsum + g\<^sup>2) \<and> s2 (V_gsum i) = Some (gsum + g\<^sup>2 + g\<^sup>2)
      \<and> gsum < gsum + g\<^sup>2 \<and> gsum + g\<^sup>2 < gsum + g\<^sup>2 + g\<^sup>2
      \<and> \<bar>p1 - p0\<bar> = \<bar>lr * g / sqrt (gsum + g\<^sup>2 + epsilon)\<bar>
      \<and> \<bar>p2 - p1\<bar> = \<bar>lr * g / sqrt (gsum + g\<^sup>2 + g\<^sup>2 + epsilon)\<bar>
      \<and> \<bar>p2 - p1\<bar> < \<bar>p1 - p0\<bar>"
proof -
  have eq: "updates (adagrad gradients params lr0 epsilon0)
      = updates (adagrad gradients params lr epsilon)"
    by (simp add: adagrad_def)
  define p1 where "p1 = p0 - lr * g / sqrt (gsum + g\<^sup>2 + epsilon)"
  define p2 where "p2 = p1 - lr * g / sqrt (gsum + g\<^sup>2 + g\<^sup>2 + epsilon)"
  have g2: "0 < g\<^sup>2" using assms(13) by simp
  have pos1: "0 < gsum + g\<^sup>2 + epsilon" by (rule assms(8))
  have pos2: "0 < gsum + g\<^sup>2 + g\<^sup>2 + epsilon" using pos1 g2 by linarith
  have s1g: "s1 (V_gsum i) = Some (gsum + g\<^sup>2)"
    and s1p: "s1 (Param (params ! i)) = Some p1"
    unfolding assms(9) eq p1_def
    using assms(1-7) assms(11) pos1 by (rule adagrad_step)+
  have s1lr: "s1 V_lr = Some lr" and s1eps: "s1 V_epsilon = Some epsilon"
    unfolding assms(9) eq using assms(5,6) by (simp_all add: adagrad_hyper)
  have s2g: "s2 (V_gsum i) = Some (gsum + g\<^sup>2 + g\<^sup>2)"
    and s2p: "s2 (Param (params ! i)) = Some p2"
    unfolding assms(10) eq p2_def
    using assms(1-3) s1p s1lr s1eps s1g assms(12) pos2 by (rule adagrad_step)+
  have d1: "\<bar>p1 - p0\<bar> = \<bar>lr * g / sqrt (gsum + g\<^sup>2 + epsilon)\<bar>"
    by (simp add: p1_def)
  have d2: "\<bar>p2 - p1\<bar> = \<bar>lr * g / sqrt (gsum + g\<^sup>2 + g\<^sup>2 + epsilon)\<bar>"
    by (simp add: p2_def)
  have "gsum + g\<^sup>2 + epsilon < gsum + g\<^sup>2 + g\<^sup>2 + epsilon" using g2 by simp
  with assms(14,13) pos1 have "\<bar>lr * g / sqrt (gsum + g\<^sup>2 + g\<^sup>2 + epsilon)\<bar> < \<bar>lr * g / sqrt (gsum + g\<^sup>2 + epsilon)\<bar>"
    by (intro step_size_less)
  with d1 d2 have "\<bar>p2 - p1\<bar> < \<bar>p1 - p0\<bar>" by simp
  with s1p s2p s1g s2g d1 d2 g2 show ?thesis by (intro exI[of _ p1] exI[of _ p2]) simp
qed

theorem adagrad_step_size_decreases_witness:
  "\<exists>p1 p2.
      step (updates (adagrad [EConst 1] [0] 1 1)) (\<lambda>_. None)
        (\<lambda>x. if x = V_gsum 0 then Some 2 else Some 1) (Param 0) = Some p1
    \<and> step (updates (adagrad [EConst 1] [0] 1 1)) (\<lambda>_. None)
        (step (updates (adagrad [EConst 1] [0] 1 1)) (\<lambda>_. None)
          (\<lambda>x. if x = V_gsum 0 then Some 2 else Some 1)) (Param 0) = Some p2
    \<and> \<bar>p2 - p1\<bar> < \<bar>p1 - 1\<bar>"
  using adagrad_step_size_decreases[where params = "[0]" and i = 0 and gradients = "[EConst 1]"
      and ?s0.0 = "\<lambda>x. if x = V_gsum 0 then Some 2 else Some 1" and ?p0.0 = 1 and lr = 1
      and epsilon = 1 and gsum = 2 and g = 1 and ?lr0.0 = 1 and ?epsilon0.0 = 1
      and ?inp1.0 = "\<lambda>_. None" and ?inp2.0 = "\<lambda>_. None"
      and ?s1.0 = "step (updates (adagrad [EConst 1] [0] 1 1)) (\<lambda>_. None)
          (\<lambda>x. if x = V_gsum 0 then Some 2 else Some 1)"
      and ?s2.0 = "step (updates (adagrad [EConst 1] [0] 1 1)) (\<lambda>_. None)
          (step (updates (adagrad [EConst 1] [0] 1 1)) (\<lambda>_. None)
            (\<lambda>x. if x = V_gsum 0 then Some 2 else Some 1))"]
  by auto

text \<open>
  The claim as stated fails in three ways. With \<open>lr = 0\<close> the parameter stays at 5 in
  both steps, so the second move (0) is not smaller than the first (0). With
  \<open>epsilon = -3\<close> the first step takes the square root of \<open>-2\<close> and the parameter is no
  number any more. In single precision, at \<open>gsum = 2 ^ 24\<close> and \<open>g = 1\<close>, the new
  \<open>gsum\<close> \<open>2 ^ 24 + 1\<close> is stored as \<open>2 ^ 24\<close>: \<open>gsum\<close> does not grow, and the next step
  starts from the same \<open>gsum\<close>.
\<close>

theorem adagrad_step_size_counterexample:
  "(\<exists>p0 p1 p2.
      init_store (shared (adagrad [EConst 1] [0] 0 1)) (\<lambda>_. Some 5) (Param 0) = Some p0
    \<and> step (updates (adagrad [EConst 1] [0] 0 1)) (\<lambda>_. None)
         (init_store (shared (adagrad [EConst 1] [0] 0 1)) (\<lambda>_. Some 5)) (Param 0) = Some p1
    \<and> step (updates (adagrad [EConst 1] [0] 0 1)) (\<lambda>_. None)
         (step (updates (adagrad [EConst 1] [0] 0 1)) (\<lambda>_. None)
           (init_store (shared (adagrad [EConst 1] [0] 0 1)) (\<lambda>_. Some 5))) (Param 0) = Some p2
    \<and> \<not> \<bar>p2 - p1\<bar> < \<bar>p1 - p0\<bar>)
   \<and> step (updates (adagrad [EConst 1] [0] 1 (-3))) (\<lambda>_. None)
         (init_store (shared (adagrad [EConst 1] [0] 1 (-3))) (\<lambda>_. Some 5)) (Param 0) = None
   \<and> step (updates (adagrad [EConst 1] [0] 1 1)) (\<lambda>_. None)
         (\<lambda>x. if x = V_gsum 0 then Some (2 ^ 24) else Some 1) (V_gsum 0) = Some (2 ^ 24 + 1)
   \<and> step_f32 (updates (adagrad [EConst 1] [0] 1 1)) (\<lambda>_. None)
         (\<lambda>x. if x = V_gsum 0 then Some (2 ^ 24) else Some 1) (V_gsum 0) = Some (2 ^ 24)"
proof -
  define ups where "ups = updates (adagrad [EConst 1] [0] 0 1)"
  define s0 where "s0 = init_store (shared (adagrad [EConst 1] [0] 0 1)) (\<lambda>_. Some 5)"
  define s1 where "s1 = step ups (\<lambda>_. None) s0"
  define s2 where "s2 = step ups (\<lambda>_. None) s1"
  have ups: "ups = [(V_gsum 0, EAdd (EVar (V_gsum 0)) (EPow (EConst 1) (EConst 2))),
      (Param 0, ESub (EVar (Param 0)) (EDiv (EMul (EVar V_lr) (EConst 1))
         (ESqrt (EAdd (EAdd (EVar (V_gsum 0)) (EPow (EConst 1) (EConst 2))) (EVar V_epsilon)))))]"
    by (simp add: ups_def adagrad_def Let_def)
  have s0: "s0 (Param 0) = Some 5" "s0 V_lr = Some 0" "s0 V_epsilon = Some 1" "s0 (V_gsum 0) = Some 0"
    by (simp_all add: s0_def adagrad_def init_store_def)
  have s1: "s1 (Param 0) = Some 5" "s1 V_lr = Some 0" "s1 V_epsilon = Some 1" "s1 (V_gsum 0) = Some 1"
    using s0 by (simp_all add: s1_def ups step_def float_pow_two float_div_def float_sqrt_def)
  have s2: "s2 (Param 0) = Some 5"
    using s1 by (simp add: s2_def ups step_def float_pow_two float_div_def float_sqrt_def)
  from s0(1) s1(1) s2 have a: "\<exists>p0 p1 p2.
      init_store (shared (adagrad [EConst 1] [0] 0 1)) (\<lambda>_. Some 5) (Param 0) = Some p0
    \<and> step (updates (adagrad [EConst 1] [0] 0 1)) (\<lambda>_. None)
         (init_store (shared (adagrad [EConst 1] [0] 0 1)) (\<lambda>_. Some 5)) (Param 0) = Some p1
    \<and> step (updates (adagrad [EConst 1] [0] 0 1)) (\<lambda>_. None)
         (step (updates (adagrad [EConst 1] [0] 0 1)) (\<lambda>_. None)
           (init_store (shared (adagrad [EConst 1] [0] 0 1)) (\<lambda>_. Some 5))) (Param 0) = Some p2
    \<and> \<not> \<bar>p2 - p1\<bar> < \<bar>p1 - p0\<bar>"
    unfolding s2_def s1_def s0_def ups_def by simp
  have b: "step (updates (adagrad [EConst 1] [0] 1 (-3))) (\<lambda>_. None)
         (init_store (shared (adagrad [EConst 1] [0] 1 (-3))) (\<lambda>_. Some 5)) (Param 0) = None"
    by (simp add: adagrad_def Let_def init_store_def step_def float_pow_two float_div_def
        float_sqrt_def)
  have c: "step (updates (adagrad [EConst 1] [0] 1 1)) (\<lambda>_. None)
         (\<lambda>x. if x = V_gsum 0 then Some (2 ^ 24) else Some 1) (V_gsum 0) = Some (2 ^ 24 + 1)"
    by (simp add: adagrad_def Let_def step_def float_pow_two)
  have d: "step_f32 (updates (adagrad [EConst 1] [0] 1 1)) (\<lambda>_. None)
         (\<lambda>x. if x = V_gsum 0 then Some (2 ^ 24) else Some 1) (V_gsum 0) = Some (2 ^ 24)"
    unfolding step_f32_def c using float32_2_24_plus_1 by simp
  from a b c d show ?thesis by blast
qed

subsection \<open>C10: an empty parameter list\<close>

text \<open>
  C10: with an empty parameter list \<open>sgd\<close>, \<open>sgdmomentum\<close>, \<open>adagrad\<close> and
  \<open>adadelta\<close> return the empty update list, whose step changes nothing, and \<open>adam\<close>
  returns the one update that adds 1 to \<open>t\<close>, so its counter still advances.
\<close>

theorem empty_params:
  assumes "sgdmomentum gradients [] lr momentum = Inr G"
  shows "updates (sgd gradients [] lr) = []
       \<and> updates G = []
       \<and> updates (adagrad gradients [] lr epsilon) = []
       \<and> updates (adadelta gradients [] rho epsilon) = []
       \<and> step [] inp s = s
       \<and> updates (adam gradients [] lr beta1 beta2 epsilon) = [(V_t, EAdd (EVar V_t) (EConst 1))]
       \<and> step (updates (adam gradients [] lr beta1 beta2 epsilon)) inp s V_t = map_option (\<lambda>t. t + 1) (s V_t)"
proof -
  from assms have "updates G = []"
    by (auto simp: sgdmomentum_def split: if_splits)
  moreover have "step [] inp s = s"
    by (simp add: step_def)
  moreover have "step [(V_t, EAdd (EVar V_t) (EConst 1))] inp s V_t = map_option (\<lambda>t. t + 1) (s V_t)"
    by (cases "s V_t") (simp_all add: step_def)
  ultimately show ?thesis
    by (simp add: sgd_def adagrad_def adadelta_def adam_def)
qed

theorem empty_params_witness:
  "\<exists>G. sgdmomentum [EConst 1] [] 1 (9/10) = Inr G \<and> updates G = []
    \<and> step (updates (adam [EConst 1] [] 1 (1/2) (1/2) 1)) (\<lambda>_. None) (\<lambda>_. Some 1) V_t = Some 2"
proof -
  have c: "sgdmomentum [EConst 1] [] 1 (9/10) = Inr (projr (sgdmomentum [EConst 1] [] 1 (9/10)))"
    by (simp add: sgdmomentum_def)
  from empty_params[OF c, where inp = "\<lambda>_. None" and s = "\<lambda>_. Some 1"
      and ?beta1.0 = "1/2" and ?beta2.0 = "1/2" and epsilon = 1 and rho = 1]
  have "updates (projr (sgdmomentum [EConst 1] [] 1 (9/10))) = []
     \<and> step (updates (adam [EConst 1] [] 1 (1/2) (1/2) 1)) (\<lambda>_. None) (\<lambda>_. Some 1) V_t = Some 2"
    by (simp add: step_def)
  with c show ?thesis by (intro exI[of _ "projr (sgdmomentum [EConst 1] [] 1 (9/10))"]) simp
qed

end
